theory Spec2Isabelle
  imports Main "HOL-Library.Sublist"
begin

section \<open>Text\<close>

text \<open>
  Python text is a sequence of code points. The model uses \<^typ>\<open>string\<close> and reads each
  \<^typ>\<open>char\<close> as one code point below 256: \<open>lower\<close>, \<open>strip\<close>, \<open>startswith\<close>, \<open>in\<close>,
  \<open>len\<close> and slicing then count and compare what the source counts and compares.
\<close>

definition is_upper :: "char \<Rightarrow> bool" where
  "is_upper c =
     (let n = (of_char c :: nat)
      in (65 \<le> n \<and> n \<le> 90) \<or> (192 \<le> n \<and> n \<le> 222 \<and> n \<noteq> 215))"

text \<open>\<open>str.lower\<close> on one character: an upper-case letter moves up by 32 (bit 5 is set).\<close>

definition lower_char :: "char \<Rightarrow> char" where
  "lower_char c =
     (if is_upper c
      then (case c of Char b0 b1 b2 b3 b4 b5 b6 b7 \<Rightarrow> Char b0 b1 b2 b3 b4 True b6 b7)
      else c)"

definition lower :: "string \<Rightarrow> string" where
  "lower s = map lower_char s"

text \<open>The characters \<open>str.strip()\<close> removes: those for which \<open>str.isspace\<close> holds.\<close>

definition is_space :: "char \<Rightarrow> bool" where
  "is_space c = ((of_char c :: nat) \<in> {9, 10, 11, 12, 13, 28, 29, 30, 31, 32, 133, 160})"

definition lstrip :: "string \<Rightarrow> string" where
  "lstrip s = dropWhile is_space s"

definition rstrip :: "string \<Rightarrow> string" where
  "rstrip s = rev (dropWhile is_space (rev s))"

definition strip :: "string \<Rightarrow> string" where
  "strip s = rstrip (lstrip s)"

definition startswith :: "string \<Rightarrow> string \<Rightarrow> bool" where
  "startswith s p = prefix p s"

text \<open>\<open>k in text\<close> on strings: \<open>k\<close> occurs in \<open>text\<close> as a contiguous block.\<close>

fun contains :: "string \<Rightarrow> string \<Rightarrow> bool" where
  "contains k [] = (k = [])"
| "contains k (c # cs) = (prefix k (c # cs) \<or> contains k cs)"


section \<open>Categories\<close>

text \<open>
  \<open>EVENT_CATEGORIES\<close> is a dict literal; iterating \<open>.items()\<close> visits the entries in the
  order they are written, so the table is an association list in that order.
\<close>

definition EVENT_CATEGORIES :: "(string \<times> string list) list" where
  "EVENT_CATEGORIES =
    [(''music'', [''concert'', ''band'', ''dj'', ''music'', ''live music'', ''festival'',
                  ''acoustic'', ''jazz'', ''rock'', ''pop'']),
     (''sports'', [''game'', ''match'', ''tournament'', ''league'', ''sports'', ''football'',
                   ''basketball'', ''soccer'', ''tennis'', ''golf'']),
     (''arts'', [''art'', ''museum'', ''gallery'', ''exhibition'', ''theater'', ''performance'',
                 ''dance'', ''ballet'', ''opera'', ''sculpture'']),
     (''technology'', [''tech'', ''coding'', ''hackathon'', ''conference'', ''workshop'', ''ai'',
                       ''startup'', ''programming'', ''software'', ''digital'']),
     (''food'', [''food'', ''cooking'', ''tasting'', ''restaurant'', ''culinary'', ''wine'',
                 ''beer'', ''chef'', ''dining'', ''cuisine'']),
     (''education'', [''workshop'', ''seminar'', ''lecture'', ''course'', ''training'',
                      ''webinar'', ''class'', ''learning'', ''tutorial'']),
     (''networking'', [''networking'', ''meetup'', ''professional'', ''business'', ''career'',
                       ''entrepreneur'', ''corporate'']),
     (''other'', [])]"

text \<open>\<open>any(keyword in text for keyword in keywords)\<close>\<close>

definition any_keyword :: "string list \<Rightarrow> string \<Rightarrow> bool" where
  "any_keyword keywords text = list_ex (\<lambda>keyword. contains keyword text) keywords"

text \<open>The \<open>for category, keywords in ...\<close> loop, with the \<open>return 'other'\<close> after it.\<close>

fun categorize_loop :: "(string \<times> string list) list \<Rightarrow> string \<Rightarrow> string" where
  "categorize_loop [] text = ''other''"
| "categorize_loop ((category, keywords) # rest) text =
     (if any_keyword keywords text then category else categorize_loop rest text)"

definition categorize_event :: "string \<Rightarrow> string \<Rightarrow> string" where
  "categorize_event title description =
     categorize_loop EVENT_CATEGORIES (lower (title @ '' '' @ description))"


section \<open>Location cleanup\<close>

definition prefixes_to_remove :: "string list" where
  "prefixes_to_remove = [''Location:'', ''Venue:'', ''Address:'', ''Where:'']"

text \<open>
  One pass over the prefixes in their order; each test sees the text left by the
  earlier removals.
\<close>

fun remove_prefixes :: "string list \<Rightarrow> string \<Rightarrow> string" where
  "remove_prefixes [] location = location"
| "remove_prefixes (p # ps) location =
     remove_prefixes ps
       (if startswith location p then strip (drop (length p) location) else location)"

definition unknown_locations :: "string list" where
  "unknown_locations = [''tba'', ''to be announced'', ''online'', ''virtual'']"

definition parse_event_location :: "string \<Rightarrow> string \<Rightarrow> string" where
  "parse_event_location location_string city =
     (if location_string = [] \<or> strip location_string = city then ''Downtown '' @ city
      else
        let location = remove_prefixes prefixes_to_remove (strip location_string)
        in if length location < 5 \<or> lower location \<in> set unknown_locations
           then city @ '' Area''
           else location)"


section \<open>Dates and times\<close>

datatype error = ValueError | TypeError | OverflowError

text \<open>
  A naive \<open>datetime\<close> object holds its calendar fields; \<open>datetime.now()\<close>,
  \<open>datetime.strptime\<close> and the arithmetic below all produce such objects.
\<close>

record datetime =
  year :: int
  month :: int
  day :: int
  hour :: int
  minute :: int
  second :: int
  microsecond :: int

definition dt_fields :: "datetime \<Rightarrow> int list" where
  "dt_fields d = [year d, month d, day d, hour d, minute d, second d, microsecond d]"

text \<open>Tuple comparison, as \<open>datetime.__lt__\<close> applies it to the fields.\<close>

fun lex_less :: "int list \<Rightarrow> int list \<Rightarrow> bool" where
  "lex_less [] [] = False"
| "lex_less [] (y # ys) = True"
| "lex_less (x # xs) [] = False"
| "lex_less (x # xs) (y # ys) = (x < y \<or> (x = y \<and> lex_less xs ys))"

definition dt_less :: "datetime \<Rightarrow> datetime \<Rightarrow> bool" where
  "dt_less a b = lex_less (dt_fields a) (dt_fields b)"

definition dt_le :: "datetime \<Rightarrow> datetime \<Rightarrow> bool" where
  "dt_le a b = (\<not> dt_less b a)"

subsection \<open>The proleptic Gregorian calendar of the \<open>datetime\<close> module\<close>

definition MAXORDINAL :: int where
  "MAXORDINAL = 3652059"

definition is_leap :: "int \<Rightarrow> bool" where
  "is_leap y = (y mod 4 = 0 \<and> (y mod 100 \<noteq> 0 \<or> y mod 400 = 0))"

definition DAYS_IN_MONTH :: "int list" where
  "DAYS_IN_MONTH = [-1, 31, 28, 31, 30, 31, 30, 31, 31, 30, 31, 30, 31]"

definition DAYS_BEFORE_MONTH :: "int list" where
  "DAYS_BEFORE_MONTH = [-1, 0, 31, 59, 90, 120, 151, 181, 212, 243, 273, 304, 334]"

definition days_in_month :: "int \<Rightarrow> int \<Rightarrow> int" where
  "days_in_month y m = (if m = 2 \<and> is_leap y then 29 else DAYS_IN_MONTH ! nat m)"

definition days_before_year :: "int \<Rightarrow> int" where
  "days_before_year y = (let y1 = y - 1 in y1 * 365 + y1 div 4 - y1 div 100 + y1 div 400)"

definition days_before_month :: "int \<Rightarrow> int \<Rightarrow> int" where
  "days_before_month y m = DAYS_BEFORE_MONTH ! nat m + (if m > 2 \<and> is_leap y then 1 else 0)"

definition ymd2ord :: "int \<Rightarrow> int \<Rightarrow> int \<Rightarrow> int" where
  "ymd2ord y m d = days_before_year y + days_before_month y m + d"

text \<open>
  The second half of \<open>_ord2ymd\<close>: month and day of the day with zero-based number
  \<open>n\<close> within its year. The month is estimated as \<open>(n + 50) >> 5\<close>, and the estimate
  is taken back by one when it is too large.
\<close>

definition month_and_day :: "bool \<Rightarrow> int \<Rightarrow> int \<times> int" where
  "month_and_day leapyear n =
     (let m = (n + 50) div 32;
          preceding = DAYS_BEFORE_MONTH ! nat m + (if m > 2 \<and> leapyear then 1 else 0);
          (m, preceding) =
            (if preceding > n
             then (m - 1,
                   preceding - (DAYS_IN_MONTH ! nat (m - 1)
                                + (if m - 1 = 2 \<and> leapyear then 1 else 0)))
             else (m, preceding))
      in (m, n - preceding + 1))"

text \<open>
  \<open>_ord2ymd\<close>: the day number is split by the lengths of 400, 100, 4 and 1 years; the
  last day of a 4-year or 400-year cycle is the 31 December of the year before.
\<close>

definition ord2ymd :: "int \<Rightarrow> int \<times> int \<times> int" where
  "ord2ymd ordinal =
     (let n = ordinal - 1;
          n400 = n div 146097; n = n mod 146097;
          y = n400 * 400 + 1;
          n100 = n div 36524; n = n mod 36524;
          n4 = n div 1461; n = n mod 1461;
          n1 = n div 365; n = n mod 365;
          y = y + n100 * 100 + n4 * 4 + n1
      in if n1 = 4 \<or> n100 = 4 then (y - 1, 12, 31)
         else
           let leapyear = (n1 = 3 \<and> (n4 \<noteq> 24 \<or> n100 = 3));
               (m, d) = month_and_day leapyear n
           in (y, m, d))"

text \<open>
  A \<open>timedelta\<close> is kept as its length in microseconds; \<open>timedelta(days=, hours=,
  minutes=)\<close> is the constructor the source uses.
\<close>

definition timedelta :: "int \<Rightarrow> int \<Rightarrow> int \<Rightarrow> int" where
  "timedelta days hours minutes = ((days * 24 + hours) * 60 + minutes) * 60 * 1000000"

definition dt_to_microseconds :: "datetime \<Rightarrow> int" where
  "dt_to_microseconds d =
     (((ymd2ord (year d) (month d) (day d) * 24 + hour d) * 60 + minute d) * 60 + second d)
       * 1000000 + microsecond d"

text \<open>
  \<open>datetime + timedelta\<close>: the sum is split into days, seconds and microseconds again,
  and a day number outside \<open>1..MAXORDINAL\<close> raises \<open>OverflowError\<close>.
\<close>

definition dt_add :: "datetime \<Rightarrow> int \<Rightarrow> error + datetime" where
  "dt_add d delta =
     (let total = dt_to_microseconds d + delta;
          days = total div 86400000000;
          rest = total mod 86400000000;
          seconds = rest div 1000000;
          hour = seconds div 3600; rem = seconds mod 3600;
          minute = rem div 60; second = rem mod 60;
          (y, m, dd) = ord2ymd days
      in if 0 < days \<and> days \<le> MAXORDINAL
         then Inr \<lparr>year = y, month = m, day = dd, hour = hour, minute = minute,
                   second = second, microsecond = rest mod 1000000\<rparr>
         else Inl OverflowError)"

text \<open>
  The validation every constructor runs on a date: the year within 1..9999, the month
  within 1..12, the day one that the month has in that year.
\<close>

definition check_date_fields :: "int \<Rightarrow> int \<Rightarrow> int \<Rightarrow> bool" where
  "check_date_fields y m d =
     (1 \<le> y \<and> y \<le> 9999 \<and> 1 \<le> m \<and> m \<le> 12 \<and> 1 \<le> d \<and> d \<le> days_in_month y m)"

text \<open>
  \<open>d.replace(year=y)\<close> builds a new object from the fields of \<open>d\<close> with the year
  exchanged and validates it: \<open>None\<close> stands for the \<open>ValueError\<close> of a year out of
  range or of a day the month does not have in that year (29 February).
\<close>

definition replace_year :: "datetime \<Rightarrow> int \<Rightarrow> datetime option" where
  "replace_year d y =
     (if check_date_fields y (month d) (day d) then Some (d\<lparr>year := y\<rparr>) else None)"


subsection \<open>Formatting\<close>

definition digit_char :: "nat \<Rightarrow> char" where
  "digit_char n = ''0123456789'' ! n"

fun str_nat :: "nat \<Rightarrow> string" where
  "str_nat n = (if n < 10 then [digit_char n] else str_nat (n div 10) @ [digit_char (n mod 10)])"

definition weekday_names :: "string list" where
  "weekday_names =
     [''Monday'', ''Tuesday'', ''Wednesday'', ''Thursday'', ''Friday'', ''Saturday'', ''Sunday'']"

definition month_names :: "string list" where
  "month_names =
     [''January'', ''February'', ''March'', ''April'', ''May'', ''June'', ''July'', ''August'',
      ''September'', ''October'', ''November'', ''December'']"

definition weekday :: "datetime \<Rightarrow> int" where
  "weekday d = (ymd2ord (year d) (month d) (day d) + 6) mod 7"

text \<open>
  \<open>d.strftime("%A, %B %d, %Y" + rest)\<close>, where \<open>rest\<close> is literal text of the format:
  weekday name, month name, the day in two digits, the year.
\<close>

definition strftime_long :: "datetime \<Rightarrow> string \<Rightarrow> string" where
  "strftime_long d rest =
     weekday_names ! nat (weekday d) @ '', '' @ month_names ! nat (month d - 1) @ '' ''
       @ (if day d < 10 then ''0'' else []) @ str_nat (nat (day d)) @ '', ''
       @ str_nat (nat (year d)) @ rest"


section \<open>Date parsing\<close>

text \<open>
  \<open>datetime.strptime\<close> and \<open>dateutil.parser.parse\<close> are library code: they are
  parameters of the model. \<open>strptime s format\<close> is \<open>None\<close> where the library raises
  \<open>ValueError\<close>, and its results are naive. The fuzzy parser returns a naive
  datetime, one that carries a time zone, or raises.
\<close>

type_synonym strptime = "string \<Rightarrow> string \<Rightarrow> datetime option"

datatype fuzzy_result = Naive datetime | Aware datetime | ParseFailure

definition patterns :: "string list" where
  "patterns =
     [''%A, %B %d, %Y at %I:%M %p'',
      ''%B %d, %Y at %I:%M %p'',
      ''%m/%d/%Y at %I:%M %p'',
      ''%Y-%m-%d %H:%M:%S'',
      ''%A, %b %d at %I:%M %p'']"

text \<open>
  The loop over the patterns. \<open>Some d\<close> is \<open>return d\<close>; \<open>None\<close> means that the loop
  ended without returning. The \<open>ValueError\<close> of \<open>strptime\<close> and the one of \<open>replace\<close>
  both reach \<open>except ValueError: continue\<close>. \<open>now\<close> is the clock as the source reads
  it before the comparison.
\<close>

fun try_patterns :: "strptime \<Rightarrow> datetime \<Rightarrow> string \<Rightarrow> string list \<Rightarrow> datetime option" where
  "try_patterns sp now date_string [] = None"
| "try_patterns sp now date_string (pattern # rest) =
     (case sp date_string pattern of
        None \<Rightarrow> try_patterns sp now date_string rest
      | Some parsed_date \<Rightarrow>
          if dt_less parsed_date now
          then (case replace_year parsed_date (year now + 1) of
                  None \<Rightarrow> try_patterns sp now date_string rest
                | Some rolled \<Rightarrow> Some rolled)
          else Some parsed_date)"

text \<open>
  The fallback. Comparing a datetime that carries a time zone with the naive \<open>now\<close>
  raises \<open>TypeError\<close>; the bare \<open>except\<close> turns every exception into \<open>None\<close>.
\<close>

definition fuzzy_fallback :: "(string \<Rightarrow> fuzzy_result) \<Rightarrow> datetime \<Rightarrow> string \<Rightarrow> datetime option" where
  "fuzzy_fallback fz now date_string =
     (case fz date_string of
        ParseFailure \<Rightarrow> None
      | Aware parsed_date \<Rightarrow> None
      | Naive parsed_date \<Rightarrow>
          if dt_less parsed_date now then replace_year parsed_date (year now + 1)
          else Some parsed_date)"

definition parse_event_datetime ::
  "strptime \<Rightarrow> (string \<Rightarrow> fuzzy_result) \<Rightarrow> datetime \<Rightarrow> string \<Rightarrow> string \<Rightarrow> datetime option" where
  "parse_event_datetime sp fz now date_string city =
     (if date_string = [] \<or> date_string = ''Date/Time TBA'' then None
      else case try_patterns sp now date_string patterns of
             Some d \<Rightarrow> Some d
           | None \<Rightarrow> fuzzy_fallback fz now date_string)"

subsection \<open>Sample library behaviour and clock\<close>

text \<open>
  What the two library parsers return on two inputs, for evaluating the parser there:
  \<open>strptime("2024-08-31 14:00:00", "%Y-%m-%d %H:%M:%S")\<close> is 31 August 2024, 14:00:00,
  \<open>strptime("2027-03-15 18:30:00", "%Y-%m-%d %H:%M:%S")\<close> is 15 March 2027, 18:30:00,
  and both strings raise \<open>ValueError\<close> under every other format of \<open>patterns\<close>. The
  fuzzy parser reads the same two naive datetimes from them. On other inputs the samples
  fail; no evaluation below reaches them.
\<close>

definition aug_31_2024 :: datetime where
  "aug_31_2024 =
     \<lparr>year = 2024, month = 8, day = 31, hour = 14, minute = 0, second = 0, microsecond = 0\<rparr>"

definition mar_15_2027 :: datetime where
  "mar_15_2027 =
     \<lparr>year = 2027, month = 3, day = 15, hour = 18, minute = 30, second = 0, microsecond = 0\<rparr>"

definition strptime_sample :: strptime where
  "strptime_sample s format =
     (if format = ''%Y-%m-%d %H:%M:%S'' \<and> s = ''2024-08-31 14:00:00'' then Some aug_31_2024
      else if format = ''%Y-%m-%d %H:%M:%S'' \<and> s = ''2027-03-15 18:30:00'' then Some mar_15_2027
      else None)"

definition fuzzy_sample :: "string \<Rightarrow> fuzzy_result" where
  "fuzzy_sample s =
     (if s = ''2024-08-31 14:00:00'' then Naive aug_31_2024
      else if s = ''2027-03-15 18:30:00'' then Naive mar_15_2027
      else ParseFailure)"

text \<open>A reading of the clock: 4 November 2026, 09:30:00.\<close>

definition now_sample :: datetime where
  "now_sample =
     \<lparr>year = 2026, month = 11, day = 4, hour = 9, minute = 30, second = 0, microsecond = 0\<rparr>"


section \<open>Event records\<close>

text \<open>
  An event is a dict with seven keys. The value under \<open>parsed_datetime\<close> is \<open>None\<close> or
  a datetime object while the event is built; in a request body, which is JSON, it is
  \<open>null\<close> or text (\<open>jsonify\<close> writes a datetime as an HTTP date string).
\<close>

datatype parsed_value = NoneV | DatetimeV datetime | TextV string

record event =
  title :: string
  date_time :: string
  parsed_datetime :: parsed_value
  location :: string
  description :: string
  category :: string
  event_url :: string

text \<open>The result of an expression that may raise, passed on to the code after it.\<close>

definition and_then :: "error + 'a \<Rightarrow> ('a \<Rightarrow> error + 'b) \<Rightarrow> error + 'b" where
  "and_then r f = (case r of Inl e \<Rightarrow> Inl e | Inr x \<Rightarrow> f x)"

text \<open>\<open>s.replace(' ', rep)\<close>\<close>

definition replace_space :: "string \<Rightarrow> string \<Rightarrow> string" where
  "replace_space s rep = concat (map (\<lambda>c. if c = CHR '' '' then rep else [c]) s)"


section \<open>Aggregation\<close>

definition title_key :: "event \<Rightarrow> string" where
  "title_key e = strip (lower (title e))"

text \<open>The loop that fills \<open>unique_events\<close> and \<open>seen_titles\<close>.\<close>

fun dedup_loop :: "event list \<Rightarrow> event list \<times> string set \<Rightarrow> event list \<times> string set" where
  "dedup_loop [] (unique_events, seen_titles) = (unique_events, seen_titles)"
| "dedup_loop (e # rest) (unique_events, seen_titles) =
     (if title_key e \<notin> seen_titles
      then dedup_loop rest (unique_events @ [e], insert (title_key e) seen_titles)
      else dedup_loop rest (unique_events, seen_titles))"

text \<open>
  What the loop has appended to \<open>unique_events\<close> at its end, written without the
  accumulators: the events whose key no earlier event and no member of \<open>seen\<close> has.
\<close>

fun first_occurrences :: "string set \<Rightarrow> event list \<Rightarrow> event list" where
  "first_occurrences seen [] = []"
| "first_occurrences seen (e # rest) =
     (if title_key e \<in> seen then first_occurrences seen rest
      else e # first_occurrences (insert (title_key e) seen) rest)"

text \<open>
  The five demo dicts, in the order of the list literal. \<open>day1 .. day5\<close> are the dates
  that \<open>strftime\<close> prints, \<open>time1 .. time5\<close> the values of \<open>parsed_datetime\<close>.
\<close>

definition demo_event_dicts ::
  "string \<Rightarrow> datetime \<Rightarrow> datetime \<Rightarrow> datetime \<Rightarrow> datetime \<Rightarrow> datetime \<Rightarrow> datetime
     \<Rightarrow> datetime \<Rightarrow> datetime \<Rightarrow> datetime \<Rightarrow> datetime \<Rightarrow> event list" where
  "demo_event_dicts city day1 time1 day2 time2 day3 time3 day4 time4 day5 time5 =
      [\<lparr>title = ''Community Art Festival - '' @ city,
        date_time = strftime_long day1 '' at 2:00 PM'',
        parsed_datetime = DatetimeV time1,
        location = ''Downtown '' @ city,
        description = ''Join us for a vibrant community art festival featuring local artists, live music, and food vendors. Experience the best of local creativity with interactive exhibits, workshops, and performances.'',
        category = ''arts'',
        event_url = ''https://www.eventbrite.com/d/'' @ replace_space (lower city) ''-''
                      @ ''/events/''\<rparr>,
       \<lparr>title = ''Tech Innovation Meetup - '' @ city,
        date_time = strftime_long day2 '' at 6:00 PM'',
        parsed_datetime = DatetimeV time2,
        location = city @ '' Convention Center'',
        description = ''Network with local tech professionals and learn about the latest trends in artificial intelligence, blockchain, and software development. Featuring keynote speakers and networking opportunities.'',
        category = ''technology'',
        event_url = ''https://www.meetup.com/find/?keywords=tech&location=''
                      @ replace_space city ''%20''\<rparr>,
       \<lparr>title = ''Weekend Farmers Market - '' @ city,
        date_time = strftime_long day3 '' at 8:00 AM'',
        parsed_datetime = DatetimeV time3,
        location = city @ '' City Square'',
        description = ''Fresh produce, local crafts, and delicious food from local vendors every weekend. Support local farmers and artisans while enjoying live music and family-friendly activities.'',
        category = ''food'',
        event_url = ''https://www.eventbrite.com/d/'' @ replace_space (lower city) ''-''
                      @ ''/food--and--drink--events/''\<rparr>,
       \<lparr>title = ''Live Jazz Night - '' @ city,
        date_time = strftime_long day4 '' at 8:00 PM'',
        parsed_datetime = DatetimeV time4,
        location = ''Blue Note Cafe, '' @ city,
        description = ''An evening of smooth jazz featuring local musicians and guest performers. Enjoy craft cocktails and appetizers while listening to the best jazz music in the city.'',
        category = ''music'',
        event_url = ''https://www.eventbrite.com/d/'' @ replace_space (lower city) ''-''
                      @ ''/music--events/''\<rparr>,
       \<lparr>title = ''Business Networking Breakfast - '' @ city,
        date_time = strftime_long day5 '' at 7:30 AM'',
        parsed_datetime = DatetimeV time5,
        location = city @ '' Business Center'',
        description = ''Connect with local entrepreneurs, business owners, and professionals over breakfast. Exchange ideas, build partnerships, and grow your professional network.'',
        category = ''networking'',
        event_url = ''https://www.meetup.com/find/?keywords=networking&location=''
                      @ replace_space city ''%20''\<rparr>]"

text \<open>
  The fallback: \<open>base_date\<close> is \<open>now + timedelta(days=1)\<close>, and every dict adds its
  own offsets to it, in the order written. Each addition can raise \<open>OverflowError\<close>,
  which nothing catches.
\<close>

definition demo_events :: "datetime \<Rightarrow> string \<Rightarrow> error + event list" where
  "demo_events now city =
     and_then (dt_add now (timedelta 1 0 0)) (\<lambda>base_date.
     and_then (dt_add base_date (timedelta 1 0 0)) (\<lambda>day1.
     and_then (dt_add base_date (timedelta 1 14 0)) (\<lambda>time1.
     and_then (dt_add base_date (timedelta 3 0 0)) (\<lambda>day2.
     and_then (dt_add base_date (timedelta 3 18 0)) (\<lambda>time2.
     and_then (dt_add base_date (timedelta 2 0 0)) (\<lambda>day3.
     and_then (dt_add base_date (timedelta 2 8 0)) (\<lambda>time3.
     and_then (dt_add base_date (timedelta 4 0 0)) (\<lambda>day4.
     and_then (dt_add base_date (timedelta 4 20 0)) (\<lambda>time4.
     and_then (dt_add base_date (timedelta 5 0 0)) (\<lambda>day5.
     and_then (dt_add base_date (timedelta 5 7 30)) (\<lambda>time5.
     Inr (demo_event_dicts city day1 time1 day2 time2 day3 time3 day4 time4 day5 time5))))))))))))"

text \<open>
  The two scrapers fetch and read web pages; they swallow every failure and return a
  list of events. They are parameters: what each returns for a city. Every call is
  recorded, in order.
\<close>

record sources =
  scrape_eventbrite_events :: "string \<Rightarrow> event list"
  scrape_meetup_events :: "string \<Rightarrow> event list"

datatype call = Eventbrite string | Meetup string

text \<open>The list the duplicates are removed from: Eventbrite's events, then Meetup's.\<close>

definition all_events_of :: "sources \<Rightarrow> string \<Rightarrow> event list" where
  "all_events_of src city =
     (let all_events = scrape_eventbrite_events src city
      in if length all_events < 5 then all_events @ scrape_meetup_events src city
         else all_events)"

definition get_events_from_multiple_sources ::
  "sources \<Rightarrow> datetime \<Rightarrow> string \<Rightarrow> (error + event list) \<times> call list" where
  "get_events_from_multiple_sources src now city =
     (let eventbrite_events = scrape_eventbrite_events src city;
          calls = [Eventbrite city] @ (if length eventbrite_events < 5 then [Meetup city] else []);
          all_events = all_events_of src city;
          unique_events = fst (dedup_loop all_events ([], {}))
      in if unique_events = []
         then (and_then (demo_events now city) (\<lambda>unique_events. Inr (take 10 unique_events)),
               calls)
         else (Inr (take 10 unique_events), calls))"


section \<open>Digest\<close>

text \<open>
  The emoji of the template lie outside the range of \<^typ>\<open>char\<close>; they are written as
  their UTF-8 bytes. Nothing below depends on them.
\<close>

definition newline :: string where "newline = [CHR 0x0A]"
definition party_popper :: string where "party_popper = [CHR 0xF0, CHR 0x9F, CHR 0x8E, CHR 0x89]"
definition calendar_sign :: string where "calendar_sign = [CHR 0xF0, CHR 0x9F, CHR 0x93, CHR 0x85]"
definition round_pushpin :: string where "round_pushpin = [CHR 0xF0, CHR 0x9F, CHR 0x93, CHR 0x8D]"
definition memo_sign :: string where "memo_sign = [CHR 0xF0, CHR 0x9F, CHR 0x93, CHR 0x9D]"
definition glowing_star :: string where "glowing_star = [CHR 0xF0, CHR 0x9F, CHR 0x8C, CHR 0x9F]"

definition digest_header :: "nat \<Rightarrow> string" where
  "digest_header n =
     party_popper @ '' Weekend Plan Digest '' @ party_popper @ newline @ newline
     @ ''Here are the top '' @ str_nat n @ '' events happening this weekend:''
     @ newline @ newline"

text \<open>What one round of the loop appends for the event numbered \<open>i\<close>.\<close>

definition digest_entry :: "nat \<Rightarrow> event \<Rightarrow> string" where
  "digest_entry i e =
     str_nat i @ ''. '' @ title e @ newline
     @ ''   '' @ calendar_sign @ '' '' @ date_time e @ newline
     @ ''   '' @ round_pushpin @ '' '' @ location e @ newline
     @ ''   '' @ memo_sign @ '' '' @ take 100 (description e) @ ''...'' @ newline @ newline"

definition digest_closing :: string where
  "digest_closing = ''Have a great weekend exploring these amazing events! '' @ glowing_star"

definition create_weekend_digest :: "event list \<Rightarrow> string" where
  "create_weekend_digest events =
     (if events = [] then ''No events found for this weekend.''
      else
        let top_events = take 3 events;
            digest = digest_header (length top_events);
            digest = foldl (\<lambda>digest (i, e). digest @ digest_entry i e) digest
                       (List.enumerate 1 top_events)
        in digest @ digest_closing)"


section \<open>The search and filter routes\<close>

text \<open>
  The JSON a route answers with. \<open>request.form.get('city', 'Detroit')\<close> reads an optional
  form field: the default is used when the field is absent.
\<close>

datatype response =
  ErrorJson string
  | SearchJson string "event list" string nat

definition search_events ::
  "sources \<Rightarrow> datetime \<Rightarrow> string option \<Rightarrow> (error + response) \<times> call list" where
  "search_events src now city_field =
     (let city = strip (case city_field of None \<Rightarrow> ''Detroit'' | Some c \<Rightarrow> c)
      in if city = [] then (Inr (ErrorJson ''Please enter a city name''), [])
         else
           let (result, calls) = get_events_from_multiple_sources src now city
           in (and_then result (\<lambda>events.
                 Inr (SearchJson city events (create_weekend_digest events) (length events))),
               calls))"

text \<open>
  \<open>filters\<close> is a dict from option names to text. \<open>filters.get(k)\<close> is true for a
  present, non-empty value.
\<close>

definition truthy :: "string option \<Rightarrow> bool" where
  "truthy v = (case v of None \<Rightarrow> False | Some s \<Rightarrow> s \<noteq> [])"

text \<open>A list comprehension whose condition may raise: the first exception ends it.\<close>

fun filter_raising :: "('a \<Rightarrow> error + bool) \<Rightarrow> 'a list \<Rightarrow> error + 'a list" where
  "filter_raising cond [] = Inr []"
| "filter_raising cond (x # xs) =
     and_then (cond x) (\<lambda>keep.
     and_then (filter_raising cond xs) (\<lambda>ys. Inr (if keep then x # ys else ys)))"

text \<open>
  \<open>e.get('parsed_datetime') and e['parsed_datetime'] >= from_date\<close> and its \<open><=\<close>
  twin: \<open>None\<close> and the empty text are false and end the test; text against a datetime
  raises \<open>TypeError\<close>; two datetimes are compared.
\<close>

definition on_or_after :: "datetime \<Rightarrow> event \<Rightarrow> error + bool" where
  "on_or_after from_date e =
     (case parsed_datetime e of
        NoneV \<Rightarrow> Inr False
      | TextV s \<Rightarrow> if s = [] then Inr False else Inl TypeError
      | DatetimeV d \<Rightarrow> Inr (dt_le from_date d))"

definition on_or_before :: "datetime \<Rightarrow> event \<Rightarrow> error + bool" where
  "on_or_before to_date e =
     (case parsed_datetime e of
        NoneV \<Rightarrow> Inr False
      | TextV s \<Rightarrow> if s = [] then Inr False else Inl TypeError
      | DatetimeV d \<Rightarrow> Inr (dt_le d to_date))"

definition category_step :: "(string \<rightharpoonup> string) \<Rightarrow> event list \<Rightarrow> event list" where
  "category_step filters filtered_events =
     (if truthy (filters ''category'') \<and> filters ''category'' \<noteq> Some ''all''
      then filter (\<lambda>e. Some (category e) = filters ''category'') filtered_events
      else filtered_events)"

definition date_from_step ::
  "strptime \<Rightarrow> (string \<rightharpoonup> string) \<Rightarrow> event list \<Rightarrow> error + event list" where
  "date_from_step sp filters filtered_events =
     (case filters ''date_from'' of
        None \<Rightarrow> Inr filtered_events
      | Some text \<Rightarrow>
          if text = [] then Inr filtered_events
          else (case sp text ''%Y-%m-%d'' of
                  None \<Rightarrow> Inl ValueError
                | Some from_date \<Rightarrow> filter_raising (on_or_after from_date) filtered_events))"

definition date_to_step ::
  "strptime \<Rightarrow> (string \<rightharpoonup> string) \<Rightarrow> event list \<Rightarrow> error + event list" where
  "date_to_step sp filters filtered_events =
     (case filters ''date_to'' of
        None \<Rightarrow> Inr filtered_events
      | Some text \<Rightarrow>
          if text = [] then Inr filtered_events
          else (case sp text ''%Y-%m-%d'' of
                  None \<Rightarrow> Inl ValueError
                | Some to_date \<Rightarrow> filter_raising (on_or_before to_date) filtered_events))"

definition search_step :: "(string \<rightharpoonup> string) \<Rightarrow> event list \<Rightarrow> event list" where
  "search_step filters filtered_events =
     (case filters ''search'' of
        None \<Rightarrow> filtered_events
      | Some text \<Rightarrow>
          if text = [] then filtered_events
          else
            let search_term = lower text
            in filter (\<lambda>e. contains search_term (lower (title e))
                            \<or> contains search_term (lower (description e)))
                 filtered_events)"

text \<open>The route: the four steps in order; the answer holds the list and its length.\<close>

definition filter_events ::
  "strptime \<Rightarrow> event list \<Rightarrow> (string \<rightharpoonup> string) \<Rightarrow> error + (event list \<times> nat)" where
  "filter_events sp events filters =
     and_then (date_from_step sp filters (category_step filters events)) (\<lambda>filtered_events.
     and_then (date_to_step sp filters filtered_events) (\<lambda>filtered_events.
     let filtered_events = search_step filters filtered_events
     in Inr (filtered_events, length filtered_events)))"


section \<open>Sample events and sources\<close>

text \<open>
  Events and scraper results at which the functions are evaluated below. The second
  jazz event differs from the first in case and surrounding blanks of the title only.
  \<open>tech_talk\<close> is an event as a request body carries it, its time as text.
\<close>

definition jazz_night :: event where
  "jazz_night =
     \<lparr>title = ''Live Jazz Night'', date_time = ''Date/Time TBA'', parsed_datetime = NoneV,
      location = ''Blue Note Cafe'', description = ''An evening of smooth jazz'',
      category = ''music'', event_url = ''https://www.eventbrite.com/e/1''\<rparr>"

definition art_fair :: event where
  "art_fair =
     \<lparr>title = ''Art Fair'', date_time = ''2027-03-15 18:30:00'',
      parsed_datetime = DatetimeV mar_15_2027,
      location = ''City Square'', description = ''Paintings by local artists'',
      category = ''arts'', event_url = ''https://www.eventbrite.com/e/2''\<rparr>"

definition jazz_night_again :: event where
  "jazz_night_again =
     \<lparr>title = '' LIVE JAZZ NIGHT '', date_time = ''Date/Time TBA'', parsed_datetime = NoneV,
      location = ''Detroit Area'', description = ''Meetup event - check Meetup.com for full details'',
      category = ''music'', event_url = ''https://www.meetup.com/e/3''\<rparr>"

definition tech_talk :: event where
  "tech_talk =
     \<lparr>title = ''Tech Talk'', date_time = ''2027-03-15 18:30:00'',
      parsed_datetime = TextV ''Mon, 15 Mar 2027 18:30:00 GMT'',
      location = ''Convention Center'', description = ''Talks about software'',
      category = ''technology'', event_url = ''https://www.meetup.com/e/4''\<rparr>"

definition sources_sample :: sources where
  "sources_sample =
     \<lparr>scrape_eventbrite_events = (\<lambda>city. [jazz_night, art_fair]),
      scrape_meetup_events = (\<lambda>city. [jazz_night_again, tech_talk])\<rparr>"

text \<open>Both sources fail: each scraper returns the empty list.\<close>

definition sources_down :: sources where
  "sources_down =
     \<lparr>scrape_eventbrite_events = (\<lambda>city. []), scrape_meetup_events = (\<lambda>city. [])\<rparr>"

text \<open>
  \<open>strptime\<close> for the filter route's format on two inputs: \<open>2027-01-01\<close> and
  \<open>2027-12-31\<close> under \<open>%Y-%m-%d\<close> are those days at midnight.
\<close>

definition jan_1_2027 :: datetime where
  "jan_1_2027 =
     \<lparr>year = 2027, month = 1, day = 1, hour = 0, minute = 0, second = 0, microsecond = 0\<rparr>"

definition dec_31_2027 :: datetime where
  "dec_31_2027 =
     \<lparr>year = 2027, month = 12, day = 31, hour = 0, minute = 0, second = 0, microsecond = 0\<rparr>"

definition strptime_dates :: strptime where
  "strptime_dates s format =
     (if format = ''%Y-%m-%d'' \<and> s = ''2027-01-01'' then Some jan_1_2027
      else if format = ''%Y-%m-%d'' \<and> s = ''2027-12-31'' then Some dec_31_2027
      else None)"


section \<open>Properties of the text functions\<close>

lemma contains_iff_sublist: "contains k t \<longleftrightarrow> sublist k t"
  by (induction t) (auto simp: sublist_Cons_right)

lemma any_keyword_iff: "any_keyword kws s \<longleftrightarrow> (\<exists>k \<in> set kws. sublist k s)"
  by (simp add: any_keyword_def list_ex_iff contains_iff_sublist)

lemma categorize_loop_in_table:
  "categorize_loop tbl s \<in> insert ''other'' (set (map fst tbl))"
  by (induction tbl s rule: categorize_loop.induct) auto

lemma categorize_loop_first:
  "i < length tbl \<Longrightarrow> any_keyword (snd (tbl ! i)) s
     \<Longrightarrow> (\<forall>j < i. \<not> any_keyword (snd (tbl ! j)) s)
     \<Longrightarrow> categorize_loop tbl s = fst (tbl ! i)"
proof (induction tbl s arbitrary: i rule: categorize_loop.induct)
  case (1 s)
  then show ?case by simp
next
  case (2 c kws rest s)
  show ?case
  proof (cases i)
    case 0
    with 2 show ?thesis by simp
  next
    case (Suc k)
    with 2 have miss: "\<not> any_keyword kws s" by fastforce
    have "categorize_loop rest s = fst (rest ! k)"
    proof (rule 2(1) [OF miss])
      show "k < length rest" using 2 Suc by simp
      show "any_keyword (snd (rest ! k)) s" using 2 Suc by simp
      show "\<forall>j < k. \<not> any_keyword (snd (rest ! j)) s"
        using 2(4) Suc by (metis Suc_less_eq nth_Cons_Suc)
    qed
    with miss Suc show ?thesis by simp
  qed
qed

lemma categorize_loop_none:
  "(\<forall>e \<in> set tbl. \<not> any_keyword (snd e) s) \<Longrightarrow> categorize_loop tbl s = ''other''"
  by (induction tbl s rule: categorize_loop.induct) auto

text \<open>
  C5. Categorisation lowercases \<open>title + ' ' + description\<close> and walks the categories in
  the order music, sports, arts, technology, food, education, networking, other. The
  result is the first category one of whose keywords occurs in the text as a substring,
  it is \<open>other\<close> when no keyword of any category occurs, and it is always one of the
  eight category names.
\<close>

theorem categorize_event_first_match:
  "map fst EVENT_CATEGORIES =
     [''music'', ''sports'', ''arts'', ''technology'', ''food'', ''education'',
      ''networking'', ''other'']
   \<and> categorize_event t d \<in> set (map fst EVENT_CATEGORIES)
   \<and> (\<forall>i < length EVENT_CATEGORIES.
        (\<exists>k \<in> set (snd (EVENT_CATEGORIES ! i)).
            sublist k (lower (t @ '' '' @ d)))
        \<and> (\<forall>j < i. \<forall>k \<in> set (snd (EVENT_CATEGORIES ! j)).
            \<not> sublist k (lower (t @ '' '' @ d)))
        \<longrightarrow> categorize_event t d = fst (EVENT_CATEGORIES ! i))
   \<and> ((\<forall>e \<in> set EVENT_CATEGORIES. \<forall>k \<in> set (snd e).
          \<not> sublist k (lower (t @ '' '' @ d)))
        \<longrightarrow> categorize_event t d = ''other'')"
proof (intro conjI allI impI)
  show "map fst EVENT_CATEGORIES =
     [''music'', ''sports'', ''arts'', ''technology'', ''food'', ''education'',
      ''networking'', ''other'']"
    by (simp add: EVENT_CATEGORIES_def)
  then have "''other'' \<in> set (map fst EVENT_CATEGORIES)" by simp
  then show "categorize_event t d \<in> set (map fst EVENT_CATEGORIES)"
    using categorize_loop_in_table [of EVENT_CATEGORIES]
    by (auto simp: categorize_event_def insert_absorb)
next
  fix i
  assume "i < length EVENT_CATEGORIES"
    and "(\<exists>k \<in> set (snd (EVENT_CATEGORIES ! i)).
            sublist k (lower (t @ '' '' @ d)))
        \<and> (\<forall>j < i. \<forall>k \<in> set (snd (EVENT_CATEGORIES ! j)).
            \<not> sublist k (lower (t @ '' '' @ d)))"
  then show "categorize_event t d = fst (EVENT_CATEGORIES ! i)"
    unfolding categorize_event_def
    by (intro categorize_loop_first) (auto simp: any_keyword_iff)
next
  assume "\<forall>e \<in> set EVENT_CATEGORIES. \<forall>k \<in> set (snd e).
          \<not> sublist k (lower (t @ '' '' @ d))"
  then show "categorize_event t d = ''other''"
    unfolding categorize_event_def
    by (intro categorize_loop_none) (auto simp: any_keyword_iff)
qed

theorem categorize_event_first_match_witness:
  "categorize_event ''Gallery'' ''New'' = ''arts''
   \<and> categorize_event ''Quiet'' ''Day'' = ''other''"
proof
  let ?s = "lower (''Gallery'' @ '' '' @ ''New'')"
  have s: "?s = ''gallery new''"
    by (simp add: lower_def lower_char_def is_upper_def)
  have len: "(2::nat) < length EVENT_CATEGORIES"
    by (simp add: EVENT_CATEGORIES_def)
  have hit: "\<exists>k \<in> set (snd (EVENT_CATEGORIES ! 2)). sublist k ?s"
    unfolding s by (simp add: EVENT_CATEGORIES_def contains_iff_sublist [symmetric])
  have miss: "\<forall>j < 2. \<forall>k \<in> set (snd (EVENT_CATEGORIES ! j)). \<not> sublist k ?s"
    unfolding s
    by (simp add: EVENT_CATEGORIES_def contains_iff_sublist [symmetric] less_Suc_eq
        numeral_2_eq_2)
  from categorize_event_first_match [of "''Gallery''" "''New''"] len hit miss
  have "categorize_event ''Gallery'' ''New'' = fst (EVENT_CATEGORIES ! 2)"
    by blast
  then show "categorize_event ''Gallery'' ''New'' = ''arts''"
    by (simp add: EVENT_CATEGORIES_def)
next
  let ?s = "lower (''Quiet'' @ '' '' @ ''Day'')"
  have s: "?s = ''quiet day''"
    by (simp add: lower_def lower_char_def is_upper_def)
  have none: "\<forall>e \<in> set EVENT_CATEGORIES. \<forall>k \<in> set (snd e). \<not> sublist k ?s"
    unfolding s by (simp add: EVENT_CATEGORIES_def contains_iff_sublist [symmetric])
  from categorize_event_first_match [of "''Quiet''" "''Day''"] none
  show "categorize_event ''Quiet'' ''Day'' = ''other''"
    by blast
qed


section \<open>Properties of the location cleanup\<close>

lemma remove_prefixes_none:
  "(\<forall>q \<in> set ps. \<not> prefix q s) \<Longrightarrow> remove_prefixes ps s = s"
  by (induction ps s rule: remove_prefixes.induct) (auto simp: startswith_def)

lemma remove_prefixes_label:
  assumes "p \<in> set prefixes_to_remove"
    and "\<forall>q \<in> set prefixes_to_remove. \<not> prefix q (strip rest)"
  shows "remove_prefixes prefixes_to_remove (p @ rest) = strip rest"
  using assms
  by (auto simp: prefixes_to_remove_def startswith_def)

lemma remove_prefixes_pass:
  "remove_prefixes prefixes_to_remove s =
     (let s1 = (if prefix ''Location:'' s then strip (drop (length ''Location:'') s) else s);
          s2 = (if prefix ''Venue:'' s1 then strip (drop (length ''Venue:'') s1) else s1);
          s3 = (if prefix ''Address:'' s2 then strip (drop (length ''Address:'') s2) else s2)
      in if prefix ''Where:'' s3 then strip (drop (length ''Where:'') s3) else s3)"
  unfolding prefixes_to_remove_def remove_prefixes.simps startswith_def Let_def ..

text \<open>
  C3, as the code has it. An empty input, or one that equals the city once trimmed,
  gives \<open>Downtown <City>\<close>; this test comes first and sees the text with its label.
  Otherwise the text is trimmed, the labels \<open>Location:\<close>, \<open>Venue:\<close>, \<open>Address:\<close>,
  \<open>Where:\<close> are removed in one pass (each removal followed by a trim), and the result
  is \<open><City> Area\<close> when fewer than 5 characters are left or the lowercased text is one
  of \<open>tba\<close>, \<open>to be announced\<close>, \<open>online\<close>, \<open>virtual\<close>, and the cleaned text
  otherwise. \<open>Venue: TBA\<close> for Detroit gives \<open>Detroit Area\<close>, and the result is never
  empty. The pass tries each of the four labels once, in the order of the list, on the
  text the earlier removals left: \<open>Location: Venue: Hall A\<close> loses both labels, and in
  \<open>Where: Location: Fox Theatre\<close> the second label stays, since \<open>Location:\<close> was tried
  before \<open>Where:\<close> was removed.
\<close>

theorem parse_event_location_cases:
  "(location_string = [] \<or> strip location_string = city
      \<longrightarrow> parse_event_location location_string city = ''Downtown '' @ city)
   \<and> (location_string \<noteq> [] \<and> strip location_string \<noteq> city
      \<longrightarrow> (let cleaned = remove_prefixes prefixes_to_remove (strip location_string)
           in parse_event_location location_string city =
                (if length cleaned < 5
                    \<or> lower cleaned \<in> {''tba'', ''to be announced'', ''online'', ''virtual''}
                 then city @ '' Area'' else cleaned)))
   \<and> ((\<forall>q \<in> set prefixes_to_remove. \<not> prefix q (strip location_string))
      \<longrightarrow> remove_prefixes prefixes_to_remove (strip location_string) = strip location_string)
   \<and> (\<forall>p rest. p \<in> set prefixes_to_remove \<and> strip location_string = p @ rest
         \<and> (\<forall>q \<in> set prefixes_to_remove. \<not> prefix q (strip rest))
      \<longrightarrow> remove_prefixes prefixes_to_remove (strip location_string) = strip rest)
   \<and> parse_event_location ''Venue: TBA'' ''Detroit'' = ''Detroit Area''
   \<and> parse_event_location location_string city \<noteq> []
   \<and> prefixes_to_remove = [''Location:'', ''Venue:'', ''Address:'', ''Where:'']
   \<and> remove_prefixes prefixes_to_remove s =
       (let s1 = (if prefix ''Location:'' s then strip (drop (length ''Location:'') s) else s);
            s2 = (if prefix ''Venue:'' s1 then strip (drop (length ''Venue:'') s1) else s1);
            s3 = (if prefix ''Address:'' s2 then strip (drop (length ''Address:'') s2) else s2)
        in if prefix ''Where:'' s3 then strip (drop (length ''Where:'') s3) else s3)
   \<and> parse_event_location location_string city =
       (if location_string = [] \<or> strip location_string = city then ''Downtown '' @ city
        else
          let s0 = strip location_string;
              s1 = (if prefix ''Location:'' s0 then strip (drop (length ''Location:'') s0)
                    else s0);
              s2 = (if prefix ''Venue:'' s1 then strip (drop (length ''Venue:'') s1) else s1);
              s3 = (if prefix ''Address:'' s2 then strip (drop (length ''Address:'') s2)
                    else s2);
              s4 = (if prefix ''Where:'' s3 then strip (drop (length ''Where:'') s3) else s3)
          in if length s4 < 5
                \<or> lower s4 \<in> {''tba'', ''to be announced'', ''online'', ''virtual''}
             then city @ '' Area'' else s4)
   \<and> parse_event_location ''Location: TBA'' ''Detroit'' = ''Detroit Area''
   \<and> parse_event_location ''Location: Venue: Hall A'' ''Detroit'' = ''Hall A''
   \<and> parse_event_location ''Where: Location: Fox Theatre'' ''Detroit''
       = ''Location: Fox Theatre''
   \<and> parse_event_location ''Venue: Detroit'' ''Detroit'' = ''Detroit''"
proof (intro conjI)
  show "location_string = [] \<or> strip location_string = city
      \<longrightarrow> parse_event_location location_string city = ''Downtown '' @ city"
    by (auto simp: parse_event_location_def)
  show "location_string \<noteq> [] \<and> strip location_string \<noteq> city
      \<longrightarrow> (let cleaned = remove_prefixes prefixes_to_remove (strip location_string)
           in parse_event_location location_string city =
                (if length cleaned < 5
                    \<or> lower cleaned \<in> {''tba'', ''to be announced'', ''online'', ''virtual''}
                 then city @ '' Area'' else cleaned))"
    by (simp add: parse_event_location_def unknown_locations_def Let_def)
  show "(\<forall>q \<in> set prefixes_to_remove. \<not> prefix q (strip location_string))
      \<longrightarrow> remove_prefixes prefixes_to_remove (strip location_string) = strip location_string"
    using remove_prefixes_none by blast
  show "\<forall>p rest. p \<in> set prefixes_to_remove \<and> strip location_string = p @ rest
         \<and> (\<forall>q \<in> set prefixes_to_remove. \<not> prefix q (strip rest))
      \<longrightarrow> remove_prefixes prefixes_to_remove (strip location_string) = strip rest"
    using remove_prefixes_label by simp
  show "parse_event_location ''Venue: TBA'' ''Detroit'' = ''Detroit Area''"
    by (simp add: parse_event_location_def strip_def lstrip_def rstrip_def is_space_def
        prefixes_to_remove_def startswith_def unknown_locations_def lower_def lower_char_def
        is_upper_def)
  show "parse_event_location location_string city \<noteq> []"
    by (auto simp: parse_event_location_def Let_def)
  show "prefixes_to_remove = [''Location:'', ''Venue:'', ''Address:'', ''Where:'']"
    by (simp add: prefixes_to_remove_def)
  show "remove_prefixes prefixes_to_remove s =
       (let s1 = (if prefix ''Location:'' s then strip (drop (length ''Location:'') s) else s);
            s2 = (if prefix ''Venue:'' s1 then strip (drop (length ''Venue:'') s1) else s1);
            s3 = (if prefix ''Address:'' s2 then strip (drop (length ''Address:'') s2) else s2)
        in if prefix ''Where:'' s3 then strip (drop (length ''Where:'') s3) else s3)"
    by (rule remove_prefixes_pass)
  show "parse_event_location location_string city =
       (if location_string = [] \<or> strip location_string = city then ''Downtown '' @ city
        else
          let s0 = strip location_string;
              s1 = (if prefix ''Location:'' s0 then strip (drop (length ''Location:'') s0)
                    else s0);
              s2 = (if prefix ''Venue:'' s1 then strip (drop (length ''Venue:'') s1) else s1);
              s3 = (if prefix ''Address:'' s2 then strip (drop (length ''Address:'') s2)
                    else s2);
              s4 = (if prefix ''Where:'' s3 then strip (drop (length ''Where:'') s3) else s3)
          in if length s4 < 5
                \<or> lower s4 \<in> {''tba'', ''to be announced'', ''online'', ''virtual''}
             then city @ '' Area'' else s4)"
    unfolding parse_event_location_def remove_prefixes_pass unknown_locations_def Let_def
    by simp
  show "parse_event_location ''Location: TBA'' ''Detroit'' = ''Detroit Area''"
    by (simp add: parse_event_location_def strip_def lstrip_def rstrip_def is_space_def
        prefixes_to_remove_def startswith_def unknown_locations_def lower_def lower_char_def
        is_upper_def)
  show "parse_event_location ''Location: Venue: Hall A'' ''Detroit'' = ''Hall A''"
    by (simp add: parse_event_location_def strip_def lstrip_def rstrip_def is_space_def
        prefixes_to_remove_def startswith_def unknown_locations_def lower_def lower_char_def
        is_upper_def)
  show "parse_event_location ''Where: Location: Fox Theatre'' ''Detroit''
       = ''Location: Fox Theatre''"
    by (simp add: parse_event_location_def strip_def lstrip_def rstrip_def is_space_def
        prefixes_to_remove_def startswith_def unknown_locations_def lower_def lower_char_def
        is_upper_def)
  show "parse_event_location ''Venue: Detroit'' ''Detroit'' = ''Detroit''"
    by (simp add: parse_event_location_def strip_def lstrip_def rstrip_def is_space_def
        prefixes_to_remove_def startswith_def unknown_locations_def lower_def lower_char_def
        is_upper_def)
qed

theorem parse_event_location_cases_witness:
  "parse_event_location [] ''Detroit'' = ''Downtown Detroit''
   \<and> parse_event_location ''Venue: Fox Theatre'' ''Detroit'' = ''Fox Theatre''
   \<and> parse_event_location ''Fox Theatre'' ''Detroit'' = ''Fox Theatre''"
proof (intro conjI)
  from parse_event_location_cases [of "[]" "''Detroit''"]
  show "parse_event_location [] ''Detroit'' = ''Downtown Detroit''"
    by simp
next
  let ?l = "''Venue: Fox Theatre''"
  have st: "strip ?l = ''Venue:'' @ '' Fox Theatre''"
    by (simp add: strip_def lstrip_def rstrip_def is_space_def)
  have rest: "strip '' Fox Theatre'' = ''Fox Theatre''"
    by (simp add: strip_def lstrip_def rstrip_def is_space_def)
  have ne: "?l \<noteq> [] \<and> strip ?l \<noteq> ''Detroit''"
    unfolding st by simp
  have lab: "''Venue:'' \<in> set prefixes_to_remove"
    by (simp add: prefixes_to_remove_def)
  have nolab: "\<forall>q \<in> set prefixes_to_remove. \<not> prefix q (strip '' Fox Theatre'')"
    unfolding rest by (simp add: prefixes_to_remove_def)
  from parse_event_location_cases [of ?l "''Detroit''"] st lab nolab
  have cleaned: "remove_prefixes prefixes_to_remove (strip ?l) = strip '' Fox Theatre''"
    by blast
  from parse_event_location_cases [of ?l "''Detroit''"] ne
  have "(let cleaned = remove_prefixes prefixes_to_remove (strip ?l)
           in parse_event_location ?l ''Detroit'' =
                (if length cleaned < 5
                    \<or> lower cleaned \<in> {''tba'', ''to be announced'', ''online'', ''virtual''}
                 then ''Detroit'' @ '' Area'' else cleaned))"
    by blast
  then show "parse_event_location ?l ''Detroit'' = ''Fox Theatre''"
    unfolding cleaned rest Let_def
    by (simp add: lower_def lower_char_def is_upper_def)
next
  let ?l = "''Fox Theatre''"
  have st: "strip ?l = ''Fox Theatre''"
    by (simp add: strip_def lstrip_def rstrip_def is_space_def)
  have ne: "?l \<noteq> [] \<and> strip ?l \<noteq> ''Detroit''"
    unfolding st by simp
  have nolab: "\<forall>q \<in> set prefixes_to_remove. \<not> prefix q (strip ?l)"
    unfolding st by (simp add: prefixes_to_remove_def)
  from parse_event_location_cases [of ?l "''Detroit''"] nolab
  have "remove_prefixes prefixes_to_remove (strip ?l) = strip ?l"
    by blast
  then have cleaned: "remove_prefixes prefixes_to_remove ?l = ?l"
    unfolding st .
  from parse_event_location_cases [of ?l "''Detroit''"] ne
  have "(let cleaned = remove_prefixes prefixes_to_remove (strip ?l)
           in parse_event_location ?l ''Detroit'' =
                (if length cleaned < 5
                    \<or> lower cleaned \<in> {''tba'', ''to be announced'', ''online'', ''virtual''}
                 then ''Detroit'' @ '' Area'' else cleaned))"
    by blast
  then show "parse_event_location ?l ''Detroit'' = ''Fox Theatre''"
    unfolding st cleaned Let_def
    by (simp add: lower_def lower_char_def is_upper_def)
qed

text \<open>
  The input \<open>Detroit\<close> for the city Detroit: the trimmed text equals the city, and the
  result is \<open>Downtown Detroit\<close>, not the placeholder \<open>Detroit Area\<close>.
\<close>

theorem parse_event_location_city_counterexample:
  "parse_event_location ''Detroit'' ''Detroit'' = ''Downtown Detroit''
   \<and> parse_event_location ''Detroit'' ''Detroit'' \<noteq> ''Detroit Area''"
  by (simp add: parse_event_location_def strip_def lstrip_def rstrip_def is_space_def)


section \<open>Properties of the date parser\<close>

lemma replace_year_year: "replace_year d y = Some r \<Longrightarrow> year r = y"
  by (auto simp: replace_year_def split: if_splits)

lemma later_year_not_less: "year b < year a \<Longrightarrow> \<not> dt_less a b"
  by (simp add: dt_less_def dt_fields_def)

lemma rolled_not_past: "replace_year d (year now + 1) = Some r \<Longrightarrow> \<not> dt_less r now"
  by (rule later_year_not_less) (simp add: replace_year_year)

lemma try_patterns_not_past:
  "try_patterns sp now s ps = Some d \<Longrightarrow> \<not> dt_less d now"
proof (induction ps)
  case Nil
  then show ?case by simp
next
  case (Cons p ps)
  then show ?case
    by (auto split: option.splits if_splits dest: rolled_not_past)
qed

lemma fuzzy_fallback_not_past:
  "fuzzy_fallback fz now s = Some d \<Longrightarrow> \<not> dt_less d now"
  by (auto simp: fuzzy_fallback_def split: fuzzy_result.splits if_splits dest: rolled_not_past)


lemma try_patterns_first:
  assumes "i < length ps" and "\<forall>j < i. sp s (ps ! j) = None" and "sp s (ps ! i) = Some parsed"
  shows "try_patterns sp now s ps =
           (if dt_less parsed now
            then (case replace_year parsed (year now + 1) of
                    None \<Rightarrow> try_patterns sp now s (drop (Suc i) ps)
                  | Some rolled \<Rightarrow> Some rolled)
            else Some parsed)"
  using assms
proof (induction ps arbitrary: i)
  case Nil
  then show ?case by simp
next
  case (Cons p ps)
  show ?case
  proof (cases i)
    case 0
    with Cons.prems show ?thesis by (simp split: option.splits)
  next
    case (Suc k)
    with Cons.prems have hd: "sp s p = None" by auto
    have "try_patterns sp now s ps =
           (if dt_less parsed now
            then (case replace_year parsed (year now + 1) of
                    None \<Rightarrow> try_patterns sp now s (drop (Suc k) ps)
                  | Some rolled \<Rightarrow> Some rolled)
            else Some parsed)"
    proof (rule Cons.IH)
      show "k < length ps" using Cons.prems Suc by simp
      show "\<forall>j < k. sp s (ps ! j) = None"
        using Cons.prems(2) Suc by (metis Suc_less_eq nth_Cons_Suc)
      show "sp s (ps ! k) = Some parsed" using Cons.prems Suc by simp
    qed
    with hd Suc show ?thesis by (simp split: option.splits)
  qed
qed

lemma try_patterns_none:
  "(\<forall>p \<in> set ps. sp s p = None) \<Longrightarrow> try_patterns sp now s ps = None"
  by (induction ps) auto


text \<open>
  C6. A datetime that \<open>parse_event_datetime\<close> returns is never strictly before the clock
  reading \<open>now\<close> it was compared with: a parsed date that is not in the past is returned
  as it is, and one in the past leaves only with its year set to the year after the
  current one.
\<close>

theorem parse_event_datetime_not_past:
  "parse_event_datetime sp fz now date_string city = Some d \<Longrightarrow> \<not> dt_less d now"
  by (auto simp: parse_event_datetime_def split: if_splits option.splits
      dest: try_patterns_not_past fuzzy_fallback_not_past)

theorem parse_event_datetime_not_past_witness:
  "parse_event_datetime strptime_sample fuzzy_sample now_sample ''2027-03-15 18:30:00''
       ''Detroit'' = Some mar_15_2027
   \<and> \<not> dt_less mar_15_2027 now_sample"
proof -
  have run: "parse_event_datetime strptime_sample fuzzy_sample now_sample
               ''2027-03-15 18:30:00'' ''Detroit'' = Some mar_15_2027"
    by (simp add: parse_event_datetime_def patterns_def strptime_sample_def now_sample_def
        mar_15_2027_def dt_less_def dt_fields_def)
  from parse_event_datetime_not_past [OF run] run show ?thesis by simp
qed

text \<open>
  C1, as the code has it. Let the string be neither empty nor the TBA sentinel, and let
  \<open>parsed\<close> be what the first accepting pattern reads from it (or what the fuzzy parser
  reads as a naive datetime when no pattern accepts). If \<open>parsed\<close> is strictly before
  \<open>now\<close> and its month and day exist in the year after the current one, the result is
  \<open>parsed\<close> with its year replaced by that year, \<open>year now + 1\<close>, and every other field
  kept. If \<open>parsed\<close> is not before \<open>now\<close> it is returned unchanged.
\<close>

theorem parse_event_datetime_rolls_to_next_year:
  assumes "date_string \<noteq> []" and "date_string \<noteq> ''Date/Time TBA''"
  shows "(\<forall>i parsed.
            i < length patterns \<and> (\<forall>j < i. sp date_string (patterns ! j) = None)
            \<and> sp date_string (patterns ! i) = Some parsed
          \<longrightarrow> (dt_less parsed now
                 \<and> check_date_fields (year now + 1) (month parsed) (day parsed)
               \<longrightarrow> parse_event_datetime sp fz now date_string city
                     = Some (parsed\<lparr>year := year now + 1\<rparr>))
              \<and> (\<not> dt_less parsed now
               \<longrightarrow> parse_event_datetime sp fz now date_string city = Some parsed))
       \<and> (\<forall>parsed.
            (\<forall>p \<in> set patterns. sp date_string p = None) \<and> fz date_string = Naive parsed
          \<longrightarrow> (dt_less parsed now
                 \<and> check_date_fields (year now + 1) (month parsed) (day parsed)
               \<longrightarrow> parse_event_datetime sp fz now date_string city
                     = Some (parsed\<lparr>year := year now + 1\<rparr>))
              \<and> (\<not> dt_less parsed now
               \<longrightarrow> parse_event_datetime sp fz now date_string city = Some parsed))"
proof (intro conjI allI impI)
  fix i parsed
  assume h: "i < length patterns \<and> (\<forall>j < i. sp date_string (patterns ! j) = None)
            \<and> sp date_string (patterns ! i) = Some parsed"
  then have first: "try_patterns sp now date_string patterns =
           (if dt_less parsed now
            then (case replace_year parsed (year now + 1) of
                    None \<Rightarrow> try_patterns sp now date_string (drop (Suc i) patterns)
                  | Some rolled \<Rightarrow> Some rolled)
            else Some parsed)"
    by (intro try_patterns_first) auto
  {
    assume "dt_less parsed now
                 \<and> check_date_fields (year now + 1) (month parsed) (day parsed)"
    with first assms
    show "parse_event_datetime sp fz now date_string city
                     = Some (parsed\<lparr>year := year now + 1\<rparr>)"
      by (simp add: parse_event_datetime_def replace_year_def)
  }
  {
    assume "\<not> dt_less parsed now"
    with first assms
    show "parse_event_datetime sp fz now date_string city = Some parsed"
      by (simp add: parse_event_datetime_def)
  }
next
  fix parsed
  assume h: "(\<forall>p \<in> set patterns. sp date_string p = None) \<and> fz date_string = Naive parsed"
  then have none: "try_patterns sp now date_string patterns = None"
    by (intro try_patterns_none) auto
  {
    assume "dt_less parsed now
                 \<and> check_date_fields (year now + 1) (month parsed) (day parsed)"
    with none h assms
    show "parse_event_datetime sp fz now date_string city
                     = Some (parsed\<lparr>year := year now + 1\<rparr>)"
      by (simp add: parse_event_datetime_def fuzzy_fallback_def replace_year_def)
  }
  {
    assume "\<not> dt_less parsed now"
    with none h assms
    show "parse_event_datetime sp fz now date_string city = Some parsed"
      by (simp add: parse_event_datetime_def fuzzy_fallback_def)
  }
qed

theorem parse_event_datetime_rolls_to_next_year_witness:
  "parse_event_datetime strptime_sample fuzzy_sample now_sample ''2024-08-31 14:00:00''
       ''Detroit'' = Some (aug_31_2024\<lparr>year := 2027\<rparr>)
   \<and> parse_event_datetime (\<lambda>s format. None) fuzzy_sample now_sample ''2024-08-31 14:00:00''
       ''Detroit'' = Some (aug_31_2024\<lparr>year := 2027\<rparr>)"
proof
  let ?s = "''2024-08-31 14:00:00''"
  have ne: "?s \<noteq> []" "?s \<noteq> ''Date/Time TBA''" by simp_all
  have i: "(3::nat) < length patterns" by (simp add: patterns_def)
  have before: "\<forall>j < 3. strptime_sample ?s (patterns ! j) = None"
    by (simp add: patterns_def strptime_sample_def less_Suc_eq numeral_3_eq_3)
  have at: "strptime_sample ?s (patterns ! 3) = Some aug_31_2024"
    by (simp add: patterns_def strptime_sample_def)
  have past: "dt_less aug_31_2024 now_sample"
    by (simp add: dt_less_def dt_fields_def aug_31_2024_def now_sample_def)
  have ok: "check_date_fields (year now_sample + 1) (month aug_31_2024) (day aug_31_2024)"
    by (simp add: check_date_fields_def days_in_month_def DAYS_IN_MONTH_def
        aug_31_2024_def now_sample_def)
  have y: "year now_sample + 1 = 2027" by (simp add: now_sample_def)
  from parse_event_datetime_rolls_to_next_year
         [OF ne, of strptime_sample now_sample fuzzy_sample "''Detroit''"]
       i before at past ok
  have "parse_event_datetime strptime_sample fuzzy_sample now_sample ?s ''Detroit''
          = Some (aug_31_2024\<lparr>year := year now_sample + 1\<rparr>)"
    by blast
  then show "parse_event_datetime strptime_sample fuzzy_sample now_sample ?s ''Detroit''
          = Some (aug_31_2024\<lparr>year := 2027\<rparr>)"
    unfolding y .
  have nopat: "\<forall>p \<in> set patterns. (\<lambda>s format. None :: datetime option) ?s p = None" by simp
  have fz: "fuzzy_sample ?s = Naive aug_31_2024" by (simp add: fuzzy_sample_def)
  from parse_event_datetime_rolls_to_next_year
         [OF ne, of "\<lambda>s format. None" now_sample fuzzy_sample "''Detroit''"]
       nopat fz past ok
  have "parse_event_datetime (\<lambda>s format. None) fuzzy_sample now_sample ?s ''Detroit''
          = Some (aug_31_2024\<lparr>year := year now_sample + 1\<rparr>)"
    by blast
  then show "parse_event_datetime (\<lambda>s format. None) fuzzy_sample now_sample ?s ''Detroit''
          = Some (aug_31_2024\<lparr>year := 2027\<rparr>)"
    unfolding y .
qed

text \<open>
  The string \<open>2024-08-31 14:00:00\<close> read on 4 November 2026: the parsed date lies in
  2024, one year added would give 31 August 2025, and the parser returns 31 August 2027.
\<close>

theorem parse_event_datetime_plus_one_year_counterexample:
  "strptime_sample ''2024-08-31 14:00:00'' ''%Y-%m-%d %H:%M:%S'' = Some aug_31_2024
   \<and> dt_less aug_31_2024 now_sample
   \<and> parse_event_datetime strptime_sample fuzzy_sample now_sample ''2024-08-31 14:00:00''
        ''Detroit''
      = Some \<lparr>year = 2027, month = 8, day = 31, hour = 14, minute = 0, second = 0,
               microsecond = 0\<rparr>
   \<and> parse_event_datetime strptime_sample fuzzy_sample now_sample ''2024-08-31 14:00:00''
        ''Detroit''
      \<noteq> Some (aug_31_2024\<lparr>year := year aug_31_2024 + 1\<rparr>)"
  by (simp add: parse_event_datetime_def patterns_def strptime_sample_def now_sample_def
      aug_31_2024_def dt_less_def dt_fields_def replace_year_def check_date_fields_def
      days_in_month_def DAYS_IN_MONTH_def)

section \<open>Properties of the digest\<close>

lemma create_weekend_digest_three:
  "create_weekend_digest (a # b # c # rest) =
     digest_header 3 @ digest_entry 1 a @ digest_entry 2 b @ digest_entry 3 c @ digest_closing"
  by (simp add: create_weekend_digest_def enumerate_simps numeral_3_eq_3 numeral_2_eq_2 Let_def
      del: str_nat.simps)

lemma at_least_three:
  "3 \<le> length xs \<Longrightarrow> \<exists>rest. xs = xs ! 0 # xs ! 1 # xs ! 2 # rest"
  by (cases xs; cases "tl xs"; cases "tl (tl xs)") auto

text \<open>
  C7. The digest of an empty list is the fixed text \<open>No events found for this weekend.\<close>
  For a list of at least 3 events it consists of the header, exactly three entries
  numbered 1, 2, 3 for the first three events in input order, and the closing line.
  Every entry ends with the first 100 characters of the description followed by
  \<open>...\<close>; a description of at most 100 characters is printed whole and still gets the
  \<open>...\<close>.
\<close>

theorem create_weekend_digest_top_three:
  "create_weekend_digest [] = ''No events found for this weekend.''
   \<and> (3 \<le> length events \<longrightarrow>
        create_weekend_digest events =
          digest_header 3 @ digest_entry 1 (events ! 0) @ digest_entry 2 (events ! 1)
            @ digest_entry 3 (events ! 2) @ digest_closing)
   \<and> prefix (str_nat i @ ''. '' @ title e) (digest_entry i e)
   \<and> suffix (take 100 (description e) @ ''...'' @ newline @ newline) (digest_entry i e)
   \<and> length (take 100 (description e)) = min 100 (length (description e))
   \<and> (length (description e) \<le> 100 \<longrightarrow>
        suffix (description e @ ''...'' @ newline @ newline) (digest_entry i e))
   \<and> str_nat 1 = ''1'' \<and> str_nat 2 = ''2'' \<and> str_nat 3 = ''3''"
proof (intro conjI impI)
  show "create_weekend_digest [] = ''No events found for this weekend.''"
    by (simp add: create_weekend_digest_def)
  show "create_weekend_digest events =
          digest_header 3 @ digest_entry 1 (events ! 0) @ digest_entry 2 (events ! 1)
            @ digest_entry 3 (events ! 2) @ digest_closing"
    if "3 \<le> length events"
  proof -
    from at_least_three [OF that] obtain rest
      where "events = events ! 0 # events ! 1 # events ! 2 # rest" ..
    then show ?thesis
      using create_weekend_digest_three [of "events ! 0" "events ! 1" "events ! 2" rest]
      by simp
  qed
  show "prefix (str_nat i @ ''. '' @ title e) (digest_entry i e)"
    by (simp add: digest_entry_def del: str_nat.simps)
  have "digest_entry i e =
      (str_nat i @ ''. '' @ title e @ newline
       @ ''   '' @ calendar_sign @ '' '' @ date_time e @ newline
       @ ''   '' @ round_pushpin @ '' '' @ location e @ newline
       @ ''   '' @ memo_sign @ '' '') @ (take 100 (description e) @ ''...'' @ newline @ newline)"
    by (simp add: digest_entry_def del: str_nat.simps)
  then show suf: "suffix (take 100 (description e) @ ''...'' @ newline @ newline) (digest_entry i e)"
    unfolding suffix_def by blast
  show "length (take 100 (description e)) = min 100 (length (description e))"
    by simp
  show "suffix (description e @ ''...'' @ newline @ newline) (digest_entry i e)"
    if "length (description e) \<le> 100"
    using suf that by simp
  show "str_nat 1 = ''1''" "str_nat 2 = ''2''" "str_nat 3 = ''3''"
    by (simp_all add: digit_char_def)
qed

theorem create_weekend_digest_top_three_witness:
  "create_weekend_digest [jazz_night, art_fair, tech_talk, jazz_night_again] =
     digest_header 3 @ digest_entry 1 jazz_night @ digest_entry 2 art_fair
       @ digest_entry 3 tech_talk @ digest_closing
   \<and> suffix (''An evening of smooth jazz...'' @ newline @ newline) (digest_entry 1 jazz_night)"
proof -
  let ?evs = "[jazz_night, art_fair, tech_talk, jazz_night_again]"
  have len: "3 \<le> length ?evs" by simp
  have short: "length (description jazz_night) \<le> 100" by (simp add: jazz_night_def)
  have d: "description jazz_night = ''An evening of smooth jazz''" by (simp add: jazz_night_def)
  from create_weekend_digest_top_three [of ?evs 1 jazz_night] len short
  have "create_weekend_digest ?evs =
          digest_header 3 @ digest_entry 1 (?evs ! 0) @ digest_entry 2 (?evs ! 1)
            @ digest_entry 3 (?evs ! 2) @ digest_closing
        \<and> suffix (description jazz_night @ ''...'' @ newline @ newline) (digest_entry 1 jazz_night)"
    by blast
  then show ?thesis unfolding d by simp
qed


section \<open>Properties of the search route\<close>

lemma snd_search_blank:
  "strip c = [] \<Longrightarrow> search_events src now (Some c) = (Inr (ErrorJson ''Please enter a city name''), [])"
  by (simp add: search_events_def)

lemma calls_get_events:
  "snd (get_events_from_multiple_sources src now city) =
     Eventbrite city # (if length (scrape_eventbrite_events src city) < 5 then [Meetup city] else [])"
  by (simp add: get_events_from_multiple_sources_def Let_def)

lemma search_events_runs:
  "strip c \<noteq> [] \<Longrightarrow> snd (search_events src now (Some c)) = snd (get_events_from_multiple_sources src now (strip c))"
  by (simp add: search_events_def Let_def split: prod.splits)

lemma strip_Detroit: "strip ''Detroit'' = ''Detroit''"
  by (simp add: strip_def lstrip_def rstrip_def is_space_def)

lemma search_events_default:
  "snd (search_events src now None) = snd (get_events_from_multiple_sources src now ''Detroit'')"
  by (simp add: search_events_def Let_def strip_Detroit split: prod.splits)

text \<open>
  C9, as the code has it. A city field that is present but blank (empty, or only white
  space) is answered with the one validation error, and no scraper is called. A city
  that is not blank starts the aggregation for the trimmed city and is never answered
  with an error message. The default \<open>Detroit\<close> stands in only for a request without a
  city field, and then the aggregation runs for Detroit.
\<close>

theorem search_events_blank_city:
  "(strip c = [] \<longrightarrow>
      search_events src now (Some c) = (Inr (ErrorJson ''Please enter a city name''), []))
   \<and> (strip c \<noteq> [] \<longrightarrow>
      snd (search_events src now (Some c))
        = snd (get_events_from_multiple_sources src now (strip c))
      \<and> hd (snd (search_events src now (Some c))) = Eventbrite (strip c)
      \<and> (\<forall>msg. fst (search_events src now (Some c)) \<noteq> Inr (ErrorJson msg)))
   \<and> snd (search_events src now None)
        = snd (get_events_from_multiple_sources src now ''Detroit'')
   \<and> hd (snd (search_events src now None)) = Eventbrite ''Detroit''"
  apply (intro conjI impI)
  apply (simp add: snd_search_blank)
     apply (simp add: search_events_runs)
    apply (simp add: search_events_runs calls_get_events)
    apply (auto simp add: search_events_def Let_def and_then_def split: prod.splits sum.splits)[1]
  apply (simp add: search_events_default)
  apply (simp add: search_events_default calls_get_events)
  done

theorem search_events_blank_city_witness:
  "search_events sources_sample now_sample (Some ''   '')
     = (Inr (ErrorJson ''Please enter a city name''), [])
   \<and> hd (snd (search_events sources_sample now_sample (Some '' Ann Arbor '')))
     = Eventbrite ''Ann Arbor''"
proof -
  have blank: "strip ''   '' = []"
    by (simp add: strip_def lstrip_def rstrip_def is_space_def)
  have named: "strip '' Ann Arbor '' = ''Ann Arbor''"
    by (simp add: strip_def lstrip_def rstrip_def is_space_def)
  then have ne: "strip '' Ann Arbor '' \<noteq> []" by simp
  from search_events_blank_city [of "''   ''" sources_sample now_sample] blank
  have a: "search_events sources_sample now_sample (Some ''   '')
     = (Inr (ErrorJson ''Please enter a city name''), [])"
    by blast
  from search_events_blank_city [of "'' Ann Arbor ''" sources_sample now_sample] ne
  have "hd (snd (search_events sources_sample now_sample (Some '' Ann Arbor '')))
     = Eventbrite (strip '' Ann Arbor '')"
    by blast
  with a named show ?thesis by simp
qed

text \<open>
  A city field of three blanks: the answer is the validation error with no scraper
  called, while the request without a city field, which gets the default, calls both
  scrapers for Detroit. The blank city is not given the default.
\<close>

theorem search_events_blank_default_counterexample:
  "search_events sources_down now_sample (Some ''   '')
     = (Inr (ErrorJson ''Please enter a city name''), [])
   \<and> snd (search_events sources_down now_sample None) = [Eventbrite ''Detroit'', Meetup ''Detroit'']
   \<and> search_events sources_down now_sample (Some ''   '')
     \<noteq> search_events sources_down now_sample None"
proof -
  have a: "search_events sources_down now_sample (Some ''   '')
     = (Inr (ErrorJson ''Please enter a city name''), [])"
    by (simp add: search_events_def strip_def lstrip_def rstrip_def is_space_def)
  have b: "snd (search_events sources_down now_sample None) = [Eventbrite ''Detroit'', Meetup ''Detroit'']"
    by (simp add: search_events_default calls_get_events sources_down_def)
  have c: "search_events sources_down now_sample (Some ''   '')
     \<noteq> search_events sources_down now_sample None"
  proof
    assume "search_events sources_down now_sample (Some ''   '')
      = search_events sources_down now_sample None"
    then have "snd (search_events sources_down now_sample (Some ''   ''))
      = snd (search_events sources_down now_sample None)"
      by simp
    with a b show False by simp
  qed
  from a b c show ?thesis by simp
qed


section \<open>Properties of the filter route\<close>

lemma filter_raising_subseq:
  "filter_raising cond xs = Inr ys \<Longrightarrow> subseq ys xs"
proof (induction xs arbitrary: ys)
  case Nil
  then show ?case by simp
next
  case (Cons x xs)
  then show ?case
    by (auto simp: and_then_def split: sum.splits if_splits)
qed

lemma category_step_subseq: "subseq (category_step filters xs) xs"
  by (simp add: category_step_def)

lemma search_step_subseq: "subseq (search_step filters xs) xs"
  by (simp add: search_step_def Let_def split: option.splits)

lemma date_from_step_subseq: "date_from_step sp filters xs = Inr ys \<Longrightarrow> subseq ys xs"
  by (auto simp: date_from_step_def split: option.splits if_splits dest: filter_raising_subseq)

lemma date_to_step_subseq: "date_to_step sp filters xs = Inr ys \<Longrightarrow> subseq ys xs"
  by (auto simp: date_to_step_def split: option.splits if_splits dest: filter_raising_subseq)

lemma filter_events_Inr:
  "filter_events sp events filters = Inr (out, n) \<Longrightarrow>
     \<exists>ys zs. date_from_step sp filters (category_step filters events) = Inr ys
        \<and> date_to_step sp filters ys = Inr zs \<and> out = search_step filters zs \<and> n = length out"
  by (auto simp: filter_events_def and_then_def Let_def split: sum.splits)

lemma filter_events_no_dates:
  "\<not> truthy (filters ''date_from'') \<Longrightarrow> \<not> truthy (filters ''date_to'') \<Longrightarrow>
     filter_events sp events filters =
       Inr (search_step filters (category_step filters events),
            length (search_step filters (category_step filters events)))"
  by (auto simp: filter_events_def and_then_def Let_def truthy_def date_from_step_def date_to_step_def
      split: option.splits)

text \<open>
  C10. Whenever the filter route answers, the events it returns form a subsequence of
  the events it was given: every returned event is one of the input events, unchanged,
  none occurs more often than in the input, and the order is the input's. The count
  in the answer is the length of that list. Without a date bound the route always
  answers.
\<close>

theorem filter_events_subseq:
  "(\<forall>out n. filter_events sp events filters = Inr (out, n)
       \<longrightarrow> subseq out events \<and> set out \<subseteq> set events \<and> n = length out)
   \<and> (\<not> truthy (filters ''date_from'') \<and> \<not> truthy (filters ''date_to'')
       \<longrightarrow> (\<exists>out. filter_events sp events filters = Inr (out, length out)))"
proof (intro conjI allI impI)
  fix out n
  assume "filter_events sp events filters = Inr (out, n)"
  from filter_events_Inr [OF this] obtain ys zs where
    ys: "date_from_step sp filters (category_step filters events) = Inr ys"
    and zs: "date_to_step sp filters ys = Inr zs"
    and out: "out = search_step filters zs" and n: "n = length out"
    by blast
  have "subseq ys (category_step filters events)" using ys by (rule date_from_step_subseq)
  then have "subseq ys events" using category_step_subseq subseq_order.trans by blast
  moreover have "subseq zs ys" using zs by (rule date_to_step_subseq)
  ultimately have "subseq zs events" using subseq_order.trans by blast
  then show "subseq out events" unfolding out
    using search_step_subseq subseq_order.trans by blast
  then show "set out \<subseteq> set events" by (auto dest: list_emb_set)
  show "n = length out" by (rule n)
next
  assume "\<not> truthy (filters ''date_from'') \<and> \<not> truthy (filters ''date_to'')"
  then show "\<exists>out. filter_events sp events filters = Inr (out, length out)"
    using filter_events_no_dates by blast
qed


theorem filter_events_subseq_witness:
  "filter_events strptime_dates [jazz_night, art_fair, jazz_night_again]
       [''category'' \<mapsto> ''music'']
     = Inr ([jazz_night, jazz_night_again], 2)
   \<and> subseq [jazz_night, jazz_night_again] [jazz_night, art_fair, jazz_night_again]
   \<and> (\<exists>out. filter_events strptime_dates [jazz_night, art_fair, jazz_night_again]
                [''category'' \<mapsto> ''music''] = Inr (out, length out))"
proof -
  let ?evs = "[jazz_night, art_fair, jazz_night_again]"
  let ?f = "[''category'' \<mapsto> ''music'']"
  have run: "filter_events strptime_dates ?evs ?f = Inr ([jazz_night, jazz_night_again], 2)"
    by (simp add: filter_events_def and_then_def category_step_def date_from_step_def
        date_to_step_def search_step_def truthy_def jazz_night_def art_fair_def
        jazz_night_again_def)
  have nodates: "\<not> truthy (?f ''date_from'') \<and> \<not> truthy (?f ''date_to'')"
    by (simp add: truthy_def)
  from filter_events_subseq [of strptime_dates ?evs ?f] run nodates
  show ?thesis by blast
qed

lemma filter_raising_no_datetime:
  assumes "\<forall>e \<in> set xs. \<forall>d. parsed_datetime e \<noteq> DatetimeV d"
    and "filter_raising cond xs = Inr ys"
    and "cond = on_or_after bound \<or> cond = on_or_before bound"
  shows "ys = []"
  using assms
proof (induction xs arbitrary: ys)
  case Nil
  then show ?case by simp
next
  case (Cons x xs)
  then show ?case
    by (cases "parsed_datetime x")
       (auto simp: and_then_def on_or_after_def on_or_before_def split: sum.splits if_splits)
qed

lemma search_step_Nil: "search_step filters [] = []"
  by (simp add: search_step_def Let_def split: option.splits)

lemma date_to_step_Nil: "date_to_step sp filters [] = Inr zs \<Longrightarrow> zs = []"
  by (auto simp: date_to_step_def split: option.splits if_splits)

lemma category_step_set: "set (category_step filters xs) \<subseteq> set xs"
  by (simp add: category_step_def)

lemma filter_events_text_times_keep_nothing:
  assumes bound: "truthy (filters ''date_from'') \<or> truthy (filters ''date_to'')"
    and json: "\<forall>e \<in> set events. \<forall>d. parsed_datetime e \<noteq> DatetimeV d"
    and run: "filter_events sp events filters = Inr (out, n)"
  shows "out = []"
proof -
  from filter_events_Inr [OF run] obtain ys zs where
    ys: "date_from_step sp filters (category_step filters events) = Inr ys"
    and zs: "date_to_step sp filters ys = Inr zs"
    and out: "out = search_step filters zs"
    by blast
  have cat: "\<forall>e \<in> set (category_step filters events). \<forall>d. parsed_datetime e \<noteq> DatetimeV d"
    using json category_step_set by blast
  show ?thesis
  proof (cases "truthy (filters ''date_from'')")
    case True
    with ys cat have "ys = []"
      by (auto simp: date_from_step_def truthy_def split: option.splits if_splits
          dest: filter_raising_no_datetime)
    with zs have "zs = []" by (simp add: date_to_step_Nil)
    with out show ?thesis by (simp add: search_step_Nil)
  next
    case False
    with ys have same: "ys = category_step filters events"
      by (auto simp: date_from_step_def truthy_def split: option.splits if_splits)
    from False bound have "truthy (filters ''date_to'')" by simp
    with zs cat same have "zs = []"
      by (auto simp: date_to_step_def truthy_def split: option.splits if_splits
          dest: filter_raising_no_datetime)
    with out show ?thesis by (simp add: search_step_Nil)
  qed
qed

text \<open>
  C8. A request body is JSON, so a resolved time arrives as text. With a date bound
  given, the comparison of that text with the bound raises \<open>TypeError\<close>: the route
  fails for the event \<open>tech_talk\<close>, whose time, 15 March 2027, lies within the bound
  of 1 January 2027.
\<close>

theorem filter_events_date_from_type_error:
  "filter_events strptime_dates [tech_talk] [''date_from'' \<mapsto> ''2027-01-01''] = Inl TypeError"
  by (simp add: filter_events_def and_then_def category_step_def date_from_step_def
      truthy_def strptime_dates_def on_or_after_def tech_talk_def)

text \<open>
  On datetime objects the two comparisons are \<open>>=\<close> and \<open><=\<close> against midnight of the
  bound, and an event without a time is dropped.
\<close>

lemma filter_events_datetime_objects:
  "filter_events strptime_dates [jazz_night, art_fair]
       [''date_from'' \<mapsto> ''2027-01-01'', ''date_to'' \<mapsto> ''2027-12-31'']
     = Inr ([art_fair], 1)"
  by (simp add: filter_events_def and_then_def category_step_def date_from_step_def
      date_to_step_def search_step_def truthy_def strptime_dates_def on_or_after_def
      on_or_before_def jazz_night_def art_fair_def dt_le_def dt_less_def dt_fields_def
      mar_15_2027_def jan_1_2027_def dec_31_2027_def)

section \<open>Properties of the aggregation\<close>

lemma dedup_loop_fst:
  "fst (dedup_loop xs (u, S)) = u @ first_occurrences S xs"
  by (induction xs arbitrary: u S) auto

lemma first_occurrences_subseq: "subseq (first_occurrences S xs) xs"
  by (induction xs arbitrary: S) auto

lemma first_occurrences_keys:
  "title_key ` set (first_occurrences S xs) = title_key ` set xs - S"
  by (induction xs arbitrary: S) auto

lemma first_occurrences_distinct: "distinct (map title_key (first_occurrences S xs))"
proof (induction xs arbitrary: S)
  case Nil
  then show ?case by simp
next
  case (Cons e xs)
  have "title_key e \<notin> title_key ` set (first_occurrences (insert (title_key e) S) xs)"
    unfolding first_occurrences_keys by simp
  with Cons show ?case by simp
qed

lemma first_occurrences_first:
  "e \<in> set (first_occurrences S xs) \<Longrightarrow> find (\<lambda>x. title_key x = title_key e) xs = Some e"
proof (induction xs arbitrary: S)
  case Nil
  then show ?case by simp
next
  case (Cons a xs)
  show ?case
  proof (cases "title_key a \<in> S")
    case True
    with Cons.prems have e: "e \<in> set (first_occurrences S xs)" by simp
    then have "title_key e \<in> title_key ` set xs - S"
      using first_occurrences_keys by blast
    with True have "title_key a \<noteq> title_key e" by auto
    with Cons.IH [OF e] show ?thesis by simp
  next
    case False
    show ?thesis
    proof (cases "e = a")
      case True
      then show ?thesis by simp
    next
      case ne: False
      with False Cons.prems
      have e: "e \<in> set (first_occurrences (insert (title_key a) S) xs)" by simp
      then have "title_key e \<in> title_key ` set xs - insert (title_key a) S"
        using first_occurrences_keys by blast
      then have "title_key a \<noteq> title_key e" by auto
      with Cons.IH [OF e] show ?thesis by simp
    qed
  qed
qed

lemma first_occurrences_not_Nil: "xs \<noteq> [] \<Longrightarrow> first_occurrences {} xs \<noteq> []"
  by (cases xs) auto

lemma first_occurrences_length:
  "length (first_occurrences S xs) = card (title_key ` set xs - S)"
proof -
  have "card (set (map title_key (first_occurrences S xs)))
          = length (map title_key (first_occurrences S xs))"
    by (rule distinct_card [OF first_occurrences_distinct])
  then show ?thesis
    by (simp add: first_occurrences_keys)
qed

lemma subseq_take: "subseq (take n xs) xs"
  by (metis append_take_drop_id list_emb_append_mono subseq_order.order_refl list_emb_Nil append_Nil2)

lemma strip_keeps_head:
  assumes "\<not> is_space c"
  shows "\<exists>r. strip (c # s) = c # r"
proof -
  have l: "lstrip (c # s) = c # s" using assms by (simp add: lstrip_def)
  have "\<exists>t. dropWhile is_space (rev s @ [c]) = t @ [c]"
    using assms by (simp add: dropWhile_append)
  then obtain t where "dropWhile is_space (rev (c # s)) = t @ [c]" by auto
  then have "rev (dropWhile is_space (rev (c # s))) = c # rev t" by simp
  then show ?thesis by (simp add: strip_def l rstrip_def)
qed

lemma title_key_head:
  assumes "title e = c # s" and "\<not> is_space (lower_char c)"
  shows "\<exists>r. title_key e = lower_char c # r"
  using strip_keeps_head [OF assms(2)] assms(1) by (simp add: title_key_def lower_def)

lemma demo_event_dicts_keys:
  "distinct (map title_key
     (demo_event_dicts city day1 time1 day2 time2 day3 time3 day4 time4 day5 time5))"
proof -
  let ?evs = "demo_event_dicts city day1 time1 day2 time2 day3 time3 day4 time4 day5 time5"
  have lc: "lower_char CHR ''C'' = CHR ''c''" "lower_char CHR ''T'' = CHR ''t''"
    "lower_char CHR ''W'' = CHR ''w''" "lower_char CHR ''L'' = CHR ''l''"
    "lower_char CHR ''B'' = CHR ''b''"
    by (simp_all add: lower_char_def is_upper_def)
  have sp: "\<not> is_space CHR ''c''" "\<not> is_space CHR ''t''" "\<not> is_space CHR ''w''"
    "\<not> is_space CHR ''l''" "\<not> is_space CHR ''b''"
    by (simp_all add: is_space_def)
  obtain r0 where k0: "title_key (?evs ! 0) = CHR ''c'' # r0"
    using title_key_head [of "?evs ! 0" "CHR ''C''"] lc sp by (auto simp: demo_event_dicts_def)
  obtain r1 where k1: "title_key (?evs ! 1) = CHR ''t'' # r1"
    using title_key_head [of "?evs ! 1" "CHR ''T''"] lc sp by (auto simp: demo_event_dicts_def)
  obtain r2 where k2: "title_key (?evs ! 2) = CHR ''w'' # r2"
    using title_key_head [of "?evs ! 2" "CHR ''W''"] lc sp by (auto simp: demo_event_dicts_def)
  obtain r3 where k3: "title_key (?evs ! 3) = CHR ''l'' # r3"
    using title_key_head [of "?evs ! 3" "CHR ''L''"] lc sp by (auto simp: demo_event_dicts_def)
  obtain r4 where k4: "title_key (?evs ! 4) = CHR ''b'' # r4"
    using title_key_head [of "?evs ! 4" "CHR ''B''"] lc sp by (auto simp: demo_event_dicts_def)
  have "map title_key ?evs = [title_key (?evs ! 0), title_key (?evs ! 1), title_key (?evs ! 2),
          title_key (?evs ! 3), title_key (?evs ! 4)]"
    by (simp add: demo_event_dicts_def)
  then show ?thesis unfolding k0 k1 k2 k3 k4 by simp
qed

lemma and_then_Inr: "and_then r f = Inr y \<longleftrightarrow> (\<exists>x. r = Inr x \<and> f x = Inr y)"
  by (cases r) (simp_all add: and_then_def)

lemma demo_events_Inr:
  assumes "demo_events now city = Inr evs"
  obtains base day1 time1 day2 time2 day3 time3 day4 time4 day5 time5 where
    "dt_add now (timedelta 1 0 0) = Inr base"
    "dt_add base (timedelta 1 14 0) = Inr time1"
    "dt_add base (timedelta 3 18 0) = Inr time2"
    "dt_add base (timedelta 2 8 0) = Inr time3"
    "dt_add base (timedelta 4 20 0) = Inr time4"
    "dt_add base (timedelta 5 7 30) = Inr time5"
    "evs = demo_event_dicts city day1 time1 day2 time2 day3 time3 day4 time4 day5 time5"
  using assms unfolding demo_events_def and_then_Inr by blast

lemma get_events_unfold:
  "fst (get_events_from_multiple_sources src now city) =
     (if first_occurrences {} (all_events_of src city) = []
      then and_then (demo_events now city) (\<lambda>unique_events. Inr (take 10 unique_events))
      else Inr (take 10 (first_occurrences {} (all_events_of src city))))"
  unfolding get_events_from_multiple_sources_def Let_def dedup_loop_fst
  by (simp split: if_splits)

lemma get_events_nonempty:
  assumes "all_events_of src city \<noteq> []"
  shows "fst (get_events_from_multiple_sources src now city)
           = Inr (take 10 (first_occurrences {} (all_events_of src city)))"
  unfolding get_events_unfold using first_occurrences_not_Nil [OF assms] by simp

lemma get_events_empty:
  assumes "all_events_of src city = []"
  shows "fst (get_events_from_multiple_sources src now city)
           = and_then (demo_events now city) (\<lambda>unique_events. Inr (take 10 unique_events))"
  unfolding get_events_unfold assms by simp

text \<open>
  C4. The list the aggregator returns has at most 10 events and no two of them have
  the same title after lowercasing and trimming. When the sources delivered anything,
  the result is a subsequence of the concatenation, Eventbrite's events before Meetup's,
  and each returned event is the first event of the concatenation with its normalized
  title; if there are at most 10 different normalized titles, every one of them is
  represented.
\<close>

theorem get_events_deduplicated:
  "all_events_of src city =
     scrape_eventbrite_events src city
       @ (if length (scrape_eventbrite_events src city) < 5
          then scrape_meetup_events src city else [])
   \<and> (\<forall>evs calls. get_events_from_multiple_sources src now city = (Inr evs, calls) \<longrightarrow>
        length evs \<le> 10 \<and> distinct (map title_key evs)
        \<and> (all_events_of src city \<noteq> [] \<longrightarrow>
             subseq evs (all_events_of src city)
             \<and> (\<forall>e \<in> set evs.
                   find (\<lambda>x. title_key x = title_key e) (all_events_of src city) = Some e)
             \<and> (card (title_key ` set (all_events_of src city)) \<le> 10 \<longrightarrow>
                   title_key ` set evs = title_key ` set (all_events_of src city))))
   \<and> (all_events_of src city \<noteq> [] \<longrightarrow>
        (\<exists>evs. fst (get_events_from_multiple_sources src now city) = Inr evs))
   \<and> title_key e = strip (lower (title e))"
proof (intro conjI allI impI)
  show "all_events_of src city =
     scrape_eventbrite_events src city
       @ (if length (scrape_eventbrite_events src city) < 5
          then scrape_meetup_events src city else [])"
    by (simp add: all_events_of_def Let_def)
  show "title_key e = strip (lower (title e))"
    by (simp add: title_key_def)
  show "\<exists>evs. fst (get_events_from_multiple_sources src now city) = Inr evs"
    if "all_events_of src city \<noteq> []"
    using get_events_nonempty [OF that] by blast
next
  fix evs calls
  assume run: "get_events_from_multiple_sources src now city = (Inr evs, calls)"
  let ?all = "all_events_of src city"
  have fo: "evs = take 10 (first_occurrences {} ?all)" if "?all \<noteq> []"
    using get_events_nonempty [OF that, of now] run by simp
  show "length evs \<le> 10"
  proof (cases "?all = []")
    case True
    with get_events_empty [OF True, of now] run
    have "and_then (demo_events now city) (\<lambda>u. Inr (take 10 u)) = Inr evs" by simp
    then show ?thesis by (auto simp: and_then_Inr)
  next
    case False
    then show ?thesis by (simp add: fo)
  qed
  show "distinct (map title_key evs)"
  proof (cases "?all = []")
    case True
    with get_events_empty [OF True, of now] run
    have "and_then (demo_events now city) (\<lambda>u. Inr (take 10 u)) = Inr evs" by simp
    then obtain u where u: "demo_events now city = Inr u" and evs: "evs = take 10 u"
      by (auto simp: and_then_Inr)
    have "distinct (map title_key u)"
      using u by (elim demo_events_Inr) (simp add: demo_event_dicts_keys)
    then show ?thesis unfolding evs by (simp add: take_map [symmetric])
  next
    case False
    have "distinct (map title_key (first_occurrences {} ?all))"
      by (rule first_occurrences_distinct)
    then show ?thesis unfolding fo [OF False] by (simp add: take_map [symmetric])
  qed
  {
    assume ne: "?all \<noteq> []"
    show "subseq evs ?all"
      unfolding fo [OF ne]
      using subseq_take first_occurrences_subseq subseq_order.trans by blast
    show "\<forall>e \<in> set evs. find (\<lambda>x. title_key x = title_key e) ?all = Some e"
      unfolding fo [OF ne]
      using first_occurrences_first by (blast dest: in_set_takeD)
    show "title_key ` set evs = title_key ` set ?all"
      if "card (title_key ` set ?all) \<le> 10"
    proof -
      have "length (first_occurrences {} ?all) \<le> 10"
        using that by (simp add: first_occurrences_length)
      then have "evs = first_occurrences {} ?all" unfolding fo [OF ne] by simp
      then show ?thesis by (simp add: first_occurrences_keys)
    qed
  }
qed

theorem get_events_deduplicated_witness:
  "get_events_from_multiple_sources sources_sample now_sample ''Detroit''
     = (Inr [jazz_night, art_fair, tech_talk], [Eventbrite ''Detroit'', Meetup ''Detroit''])
   \<and> all_events_of sources_sample ''Detroit''
     = [jazz_night, art_fair, jazz_night_again, tech_talk]
   \<and> title_key jazz_night = title_key jazz_night_again
   \<and> distinct (map title_key [jazz_night, art_fair, tech_talk])
   \<and> subseq [jazz_night, art_fair, tech_talk] (all_events_of sources_sample ''Detroit'')"
proof -
  have keys: "title_key jazz_night = ''live jazz night''"
    "title_key jazz_night_again = ''live jazz night''"
    "title_key art_fair = ''art fair''" "title_key tech_talk = ''tech talk''"
    by (simp_all add: title_key_def jazz_night_def jazz_night_again_def art_fair_def
        tech_talk_def lower_def lower_char_def is_upper_def strip_def lstrip_def rstrip_def
        is_space_def)
  have all: "all_events_of sources_sample ''Detroit''
     = [jazz_night, art_fair, jazz_night_again, tech_talk]"
    by (simp add: all_events_of_def sources_sample_def)
  have run: "get_events_from_multiple_sources sources_sample now_sample ''Detroit''
     = (Inr [jazz_night, art_fair, tech_talk], [Eventbrite ''Detroit'', Meetup ''Detroit''])"
    by (simp add: get_events_from_multiple_sources_def all keys Let_def)
       (simp add: sources_sample_def)
  have ne: "all_events_of sources_sample ''Detroit'' \<noteq> []" by (simp add: all)
  from get_events_deduplicated [of sources_sample "''Detroit''" now_sample] run ne
  have "distinct (map title_key [jazz_night, art_fair, tech_talk])
        \<and> subseq [jazz_night, art_fair, tech_talk] (all_events_of sources_sample ''Detroit'')"
    by blast
  with run all keys show ?thesis by simp
qed

section \<open>Properties of the calendar\<close>

























section \<open>Properties of the date arithmetic\<close>





















section \<open>Properties of the fallback events\<close>
















end
